theory Spec2Isabelle
  imports Complex_Main
begin

section \<open>Python values and library functions used by the optimiser\<close>

text \<open>
  Floats are modelled as the real numbers they approximate; rounding, infinities and NaN
  are outside the model. The exceptions the engine can raise are values of \<open>py_error\<close>,
  and a fallible computation returns \<open>py_error + 'a\<close> with \<open>Inl\<close> for the raise.
\<close>

datatype py_error = ValueError | IndexError | ZeroDivisionError

type_synonym punto = "real \<times> real"

type_synonym candidato = "real \<times> real \<times> real"

text \<open>Float division raises \<open>ZeroDivisionError\<close> on a zero divisor.\<close>

definition py_div :: "real \<Rightarrow> real \<Rightarrow> py_error + real" where
  "py_div a b = (if b = 0 then Inl ZeroDivisionError else Inr (a / b))"

text \<open>\<open>min(iterable)\<close> and \<open>max(iterable)\<close>: the first extremal element, \<open>ValueError\<close> when empty.\<close>

fun py_min :: "real list \<Rightarrow> py_error + real" where
  "py_min [] = Inl ValueError"
| "py_min (x # xs) = Inr (foldl (\<lambda>b y. if y < b then y else b) x xs)"

fun py_max :: "real list \<Rightarrow> py_error + real" where
  "py_max [] = Inl ValueError"
| "py_max (x # xs) = Inr (foldl (\<lambda>b y. if b < y then y else b) x xs)"

text \<open>\<open>max(iterable, key=f)\<close>: the first element whose key is maximal.\<close>

fun py_max_key :: "('a \<Rightarrow> real) \<Rightarrow> 'a list \<Rightarrow> py_error + 'a" where
  "py_max_key f [] = Inl ValueError"
| "py_max_key f (x # xs) = Inr (foldl (\<lambda>b y. if f b < f y then y else b) x xs)"

text \<open>
  \<open>sorted(xs, key=f, reverse=True)\<close>: a stable sort, descending by key (elements with
  equal keys keep their order).
\<close>

definition py_sorted_desc :: "('a \<Rightarrow> real) \<Rightarrow> 'a list \<Rightarrow> 'a list" where
  "py_sorted_desc f xs = sort_key (\<lambda>x. - f x) xs"

text \<open>The slice \<open>xs[:k]\<close> for any integer \<open>k\<close> (a negative \<open>k\<close> counts from the end).\<close>

definition py_slice_hasta :: "int \<Rightarrow> 'a list \<Rightarrow> 'a list" where
  "py_slice_hasta k xs =
     (if 0 \<le> k then take (nat k) xs else take (length xs - nat (- k)) xs)"

text \<open>Collecting the results of a list comprehension whose body may raise.\<close>

fun py_collect :: "(py_error + 'a) list \<Rightarrow> py_error + 'a list" where
  "py_collect [] = Inr []"
| "py_collect (r # rs) =
     (case r of
        Inl e \<Rightarrow> Inl e
      | Inr v \<Rightarrow> (case py_collect rs of Inl e \<Rightarrow> Inl e | Inr vs \<Rightarrow> Inr (v # vs)))"

subsection \<open>The random source\<close>

text \<open>
  The module-level generator of \<open>random\<close> is made explicit: a tape of reals, read from
  position 0, each draw returning the rest of the tape. \<open>random()\<close> is the fractional part
  of the cell, \<open>uniform(a, b)\<close> is \<open>a + (b - a) * random()\<close> as in the library,
  \<open>gauss(mu, sigma)\<close> is \<open>mu + z * sigma\<close> with the cell as the normal deviate \<open>z\<close>,
  \<open>choice\<close> indexes with a number below the length (\<open>IndexError\<close> when empty), and
  \<open>sample(xs, k)\<close> draws \<open>k\<close> positions without replacement from a pool
  (\<open>ValueError\<close> unless \<open>0 \<le> k \<le> len(xs)\<close>). Every theorem below holds for all tapes.
\<close>

type_synonym rng = "nat \<Rightarrow> real"

definition rng_resto :: "rng \<Rightarrow> rng" where
  "rng_resto g = (\<lambda>i. g (Suc i))"

definition random_random :: "rng \<Rightarrow> real \<times> rng" where
  "random_random g = (frac (g 0), rng_resto g)"

definition random_uniform :: "real \<Rightarrow> real \<Rightarrow> rng \<Rightarrow> real \<times> rng" where
  "random_uniform a b g = (case random_random g of (u, g') \<Rightarrow> (a + (b - a) * u, g'))"

definition random_gauss :: "real \<Rightarrow> real \<Rightarrow> rng \<Rightarrow> real \<times> rng" where
  "random_gauss mu sigma g = (mu + g 0 * sigma, rng_resto g)"

definition randbelow :: "nat \<Rightarrow> rng \<Rightarrow> nat \<times> rng" where
  "randbelow n g = (nat \<lfloor>frac (g 0) * real n\<rfloor>, rng_resto g)"

definition random_choice :: "'a list \<Rightarrow> rng \<Rightarrow> py_error + ('a \<times> rng)" where
  "random_choice xs g =
     (if xs = [] then Inl IndexError
      else case randbelow (length xs) g of (j, g') \<Rightarrow> Inr (xs ! j, g'))"

fun sample_loop :: "nat \<Rightarrow> 'a list \<Rightarrow> 'a list \<Rightarrow> rng \<Rightarrow> 'a list \<times> rng" where
  "sample_loop 0 pool result g = (result, g)"
| "sample_loop (Suc k) pool result g =
     (case randbelow (length pool) g of
        (j, g') \<Rightarrow> sample_loop k (butlast (pool[j := last pool])) (result @ [pool ! j]) g')"

definition random_sample :: "'a list \<Rightarrow> int \<Rightarrow> rng \<Rightarrow> py_error + ('a list \<times> rng)" where
  "random_sample xs k g =
     (if k < 0 \<or> int (length xs) < k then Inl ValueError
      else Inr (sample_loop (nat k) xs [] g))"

text \<open>A concrete tape, for evaluating the model on explicit inputs.\<close>

definition cinta_cero :: rng where
  "cinta_cero = (\<lambda>i. 0)"

section \<open>Geometry shared by both modules\<close>

text \<open>
  \<open>haversine_m\<close>, \<open>_clamp\<close>, \<open>_get_lat_lon\<close> and \<open>_bbox\<close> are defined identically in
  \<open>algoritmo_genetico.py\<close> and \<open>ga_cobertura.py\<close>. A camera is already a coordinate
  pair here, so \<open>_get_lat_lon\<close> only reads its two components.
\<close>

definition radians :: "real \<Rightarrow> real" where
  "radians x = x * pi / 180"

definition haversine_a :: "real \<Rightarrow> real \<Rightarrow> real \<Rightarrow> real \<Rightarrow> real" where
  "haversine_a lat1 lon1 lat2 lon2 =
     (let phi1 = radians lat1;
          phi2 = radians lat2;
          dphi = radians (lat2 - lat1);
          dlambda = radians (lon2 - lon1)
      in (sin (dphi / 2.0))\<^sup>2 + cos phi1 * cos phi2 * (sin (dlambda / 2.0))\<^sup>2)"

definition haversine_m :: "real \<Rightarrow> real \<Rightarrow> real \<Rightarrow> real \<Rightarrow> real" where
  "haversine_m lat1 lon1 lat2 lon2 =
     (let R = 6371000.0;
          a = haversine_a lat1 lon1 lat2 lon2;
          c = 2.0 * arcsin (sqrt a)
      in R * c)"

definition clamp :: "real \<Rightarrow> real \<Rightarrow> real \<Rightarrow> real" where
  "clamp v lo hi = max lo (min hi v)"

definition get_lat_lon :: "punto \<Rightarrow> real \<times> real" where
  "get_lat_lon camara = (fst camara, snd camara)"

definition bbox :: "punto list \<Rightarrow> py_error + (real \<times> real \<times> real \<times> real)" where
  "bbox camaras =
     (let pts = map get_lat_lon camaras;
          lats = map fst pts;
          lons = map snd pts
      in case py_min lats of Inl e \<Rightarrow> Inl e | Inr min_lat \<Rightarrow>
         (case py_max lats of Inl e \<Rightarrow> Inl e | Inr max_lat \<Rightarrow>
         (case py_min lons of Inl e \<Rightarrow> Inl e | Inr min_lon \<Rightarrow>
         (case py_max lons of Inl e \<Rightarrow> Inl e | Inr max_lon \<Rightarrow>
            Inr (min_lat, max_lat, min_lon, max_lon)))))"

section \<open>Blind-spot search (\<open>algoritmo_genetico.py\<close>)\<close>

definition centroide :: "punto list \<Rightarrow> py_error + (real \<times> real)" where
  "centroide camaras =
     (let pts = map get_lat_lon camaras
      in case py_div (sum_list (map fst pts)) (real (length pts)) of
           Inl e \<Rightarrow> Inl e
         | Inr c_lat \<Rightarrow>
             (case py_div (sum_list (map snd pts)) (real (length pts)) of
                Inl e \<Rightarrow> Inl e
              | Inr c_lon \<Rightarrow> Inr (c_lat, c_lon)))"

definition distancias :: "real \<Rightarrow> real \<Rightarrow> punto list \<Rightarrow> real list" where
  "distancias lat lon camaras =
     map (\<lambda>c. case get_lat_lon c of (clat, clon) \<Rightarrow> haversine_m lat lon clat clon) camaras"

definition dist_min_a_camaras :: "real \<Rightarrow> real \<Rightarrow> punto list \<Rightarrow> py_error + real" where
  "dist_min_a_camaras lat lon camaras = py_min (distancias lat lon camaras)"

text \<open>The neighbour count that \<open>_dist_prom_k_vecinas\<close> really uses: \<open>max(1, min(k, len(dists)))\<close>.\<close>

definition k_efectivo :: "int \<Rightarrow> nat \<Rightarrow> int" where
  "k_efectivo k n = max 1 (min k (int n))"

definition dist_prom_k_vecinas :: "real \<Rightarrow> real \<Rightarrow> punto list \<Rightarrow> int \<Rightarrow> py_error + real" where
  "dist_prom_k_vecinas lat lon camaras k =
     (let dists = sort (distancias lat lon camaras);
          k' = k_efectivo k (length dists)
      in py_div (sum_list (py_slice_hasta k' dists)) (real_of_int k'))"

definition fitness_punto_completo ::
  "punto \<Rightarrow> punto list \<Rightarrow> real \<Rightarrow> real \<Rightarrow> real \<Rightarrow> int \<Rightarrow> real \<Rightarrow> py_error + real" where
  "fitness_punto_completo punto camaras radio_cobertura_m max_interes_m max_extrapolacion_m
       k_vecinos borde_frac_penal =
     (if camaras = [] then Inr 0.0
      else
        (let lat = fst punto; lon = snd punto in
         (case dist_min_a_camaras lat lon camaras of
            Inl e \<Rightarrow> Inl e
          | Inr dmin \<Rightarrow>
            (if dmin \<le> radio_cobertura_m
             then Inr (clamp (0.05 * (dmin / max radio_cobertura_m (1 / 10 ^ 9))) 0.0 0.05)
             else
               (let d_use = min dmin max_interes_m;
                    hueco = d_use / max max_interes_m (1 / 10 ^ 9);
                    hueco = clamp hueco 0.0 1.0
                in
                (case dist_prom_k_vecinas lat lon camaras k_vecinos of
                   Inl e \<Rightarrow> Inl e
                 | Inr d_k \<Rightarrow>
                   (let interno = 1.0 - min (d_k / max max_interes_m (1 / 10 ^ 9)) 1.0;
                        interno = clamp interno 0.0 1.0
                    in
                    (case centroide camaras of
                       Inl e \<Rightarrow> Inl e
                     | Inr (c_lat, c_lon) \<Rightarrow>
                       (let d_cent = haversine_m lat lon c_lat c_lon;
                            penal_extrap =
                              (if d_cent > max_interes_m
                               then clamp ((d_cent - max_interes_m)
                                      / max (max_extrapolacion_m - max_interes_m) (1 / 10 ^ 9))
                                      0.0 1.0
                               else 0.0);
                            penal_extrap = penal_extrap * 0.5
                        in
                        (case bbox camaras of
                           Inl e \<Rightarrow> Inl e
                         | Inr (min_lat, max_lat, min_lon, max_lon) \<Rightarrow>
                           (let lat_span = max (max_lat - min_lat) (1 / 10 ^ 9);
                                lon_span = max (max_lon - min_lon) (1 / 10 ^ 9);
                                lat_borde = lat_span * borde_frac_penal;
                                lon_borde = lon_span * borde_frac_penal;
                                cerca_borde =
                                  (lat < min_lat + lat_borde \<or> lat > max_lat - lat_borde \<or>
                                   lon < min_lon + lon_borde \<or> lon > max_lon - lon_borde);
                                penal_borde = (if cerca_borde then 0.15 else 0.0);
                                score = (0.70 * hueco + 0.30 * interno)
                                        - (0.70 * penal_extrap) - penal_borde
                            in Inr (clamp score 0.0 1.0))))))))))))"

text \<open>
  Tournament selection. \<open>seleccion_torneo\<close> and \<open>_seleccion_torneo\<close> of the two modules
  are the same function on different individuals. \<open>fitnesses ! i\<close> is only read at the
  contenders, which are drawn from \<open>range(len(poblacion))\<close>.
\<close>

fun torneo_bucle ::
  "nat \<Rightarrow> 'a list \<Rightarrow> real list \<Rightarrow> int \<Rightarrow> 'a list \<Rightarrow> rng \<Rightarrow> py_error + ('a list \<times> rng)" where
  "torneo_bucle 0 poblacion fitnesses k_torneo seleccionados g = Inr (seleccionados, g)"
| "torneo_bucle (Suc m) poblacion fitnesses k_torneo seleccionados g =
     (let idxs = [0..<length poblacion] in
      case random_sample idxs (min k_torneo (int (length idxs))) g of
        Inl e \<Rightarrow> Inl e
      | Inr (contendientes, g1) \<Rightarrow>
          (case py_max_key (\<lambda>i. fitnesses ! i) contendientes of
             Inl e \<Rightarrow> Inl e
           | Inr best \<Rightarrow>
               torneo_bucle m poblacion fitnesses k_torneo (seleccionados @ [poblacion ! best]) g1))"

definition seleccion_torneo ::
  "'a list \<Rightarrow> real list \<Rightarrow> int \<Rightarrow> int option \<Rightarrow> rng \<Rightarrow> py_error + ('a list \<times> rng)" where
  "seleccion_torneo poblacion fitnesses k_torneo n g =
     (let n' = (case n of None \<Rightarrow> int (length poblacion) | Some v \<Rightarrow> v)
      in torneo_bucle (nat n') poblacion fitnesses k_torneo [] g)"

definition blx :: "real \<Rightarrow> real \<Rightarrow> real \<Rightarrow> rng \<Rightarrow> real \<times> rng" where
  "blx a b alpha g =
     (let lo = min a b; hi = max a b; d = hi - lo
      in random_uniform (lo - alpha * d) (hi + alpha * d) g)"

definition cruzar_blx_alpha :: "punto \<Rightarrow> punto \<Rightarrow> real \<Rightarrow> rng \<Rightarrow> punto \<times> rng" where
  "cruzar_blx_alpha p1 p2 alpha g =
     (case p1 of (x1, y1) \<Rightarrow> case p2 of (x2, y2) \<Rightarrow>
      case blx x1 x2 alpha g of (x, g1) \<Rightarrow>
      case blx y1 y2 alpha g1 of (y, g2) \<Rightarrow> ((x, y), g2))"

definition mutar_gauss ::
  "punto \<Rightarrow> real \<Rightarrow> real \<Rightarrow> real \<Rightarrow> real \<Rightarrow> real \<Rightarrow> real \<Rightarrow> real \<Rightarrow> rng \<Rightarrow> punto \<times> rng" where
  "mutar_gauss ind min_lat max_lat min_lon max_lon sigma_lat sigma_lon prob_mut g =
     (case ind of (lat, lon) \<Rightarrow>
      case random_random g of (u, g1) \<Rightarrow>
      case (if u < prob_mut
            then (case random_gauss 0.0 sigma_lat g1 of (dlat, g2) \<Rightarrow>
                  case random_gauss 0.0 sigma_lon g2 of (dlon, g3) \<Rightarrow>
                    (lat + dlat, lon + dlon, g3))
            else (lat, lon, g1)) of
        (lat', lon', g') \<Rightarrow> ((clamp lat' min_lat max_lat, clamp lon' min_lon max_lon), g'))"

text \<open>
  The diversity selector: a greedy pass that keeps a candidate when no kept one is closer
  than \<open>min_sep_m\<close>, then a second pass that appends the candidates that are not yet
  \<open>in seleccionados\<close> (membership by value). Both passes stop at \<open>max_puntos\<close>.
\<close>

fun espaciados_pasada :: "candidato list \<Rightarrow> real \<Rightarrow> int \<Rightarrow> candidato list \<Rightarrow> candidato list" where
  "espaciados_pasada [] min_sep_m max_puntos seleccionados = seleccionados"
| "espaciados_pasada ((lat, lon, fit) # resto) min_sep_m max_puntos seleccionados =
     (if int (length seleccionados) \<ge> max_puntos then seleccionados
      else if list_ex (\<lambda>(slat, slon, _). haversine_m lat lon slat slon < min_sep_m) seleccionados
      then espaciados_pasada resto min_sep_m max_puntos seleccionados
      else espaciados_pasada resto min_sep_m max_puntos (seleccionados @ [(lat, lon, fit)]))"

fun espaciados_relleno :: "candidato list \<Rightarrow> int \<Rightarrow> candidato list \<Rightarrow> candidato list" where
  "espaciados_relleno [] max_puntos seleccionados = seleccionados"
| "espaciados_relleno (c # resto) max_puntos seleccionados =
     (if int (length seleccionados) \<ge> max_puntos then seleccionados
      else if c \<notin> set seleccionados
      then espaciados_relleno resto max_puntos (seleccionados @ [c])
      else espaciados_relleno resto max_puntos seleccionados)"

definition seleccionar_espaciados :: "candidato list \<Rightarrow> real \<Rightarrow> int \<Rightarrow> candidato list" where
  "seleccionar_espaciados candidatos min_sep_m max_puntos =
     (let seleccionados = espaciados_pasada candidatos min_sep_m max_puntos []
      in if int (length seleccionados) < max_puntos
         then espaciados_relleno candidatos max_puntos seleccionados
         else seleccionados)"

subsection \<open>The generational loop of the blind-spot search\<close>

text \<open>The keyword arguments of \<open>algoritmo_genetico_puntos_ciegos\<close>, after \<open>camaras\<close>.\<close>

record args_puntos_ciegos =
  tam_poblacion :: int
  generaciones :: int
  num_puntos_resultado :: int
  min_separacion_m :: real
  radio_cobertura_m :: real
  max_interes_m :: real
  max_extrapolacion_m :: real
  k_vecinos :: int
  elitismo :: int
  k_torneo :: int
  alpha_blx :: real
  bbox_margin_factor :: real

definition args_puntos_ciegos_defecto :: args_puntos_ciegos where
  "args_puntos_ciegos_defecto =
     \<lparr>tam_poblacion = 120, generaciones = 90, num_puntos_resultado = 10,
      min_separacion_m = 180.0, radio_cobertura_m = 80.0, max_interes_m = 350.0,
      max_extrapolacion_m = 900.0, k_vecinos = 4, elitismo = 4, k_torneo = 4,
      alpha_blx = 0.5, bbox_margin_factor = 0.15\<rparr>"

text \<open>The pair \<open>(random.uniform(min_lat, max_lat), random.uniform(min_lon, max_lon))\<close>.\<close>

definition punto_aleatorio :: "real \<Rightarrow> real \<Rightarrow> real \<Rightarrow> real \<Rightarrow> rng \<Rightarrow> punto \<times> rng" where
  "punto_aleatorio min_lat max_lat min_lon max_lon g =
     (case random_uniform min_lat max_lat g of (a, g1) \<Rightarrow>
      (case random_uniform min_lon max_lon g1 of (b, g2) \<Rightarrow> ((a, b), g2)))"

fun poblacion_inicial :: "nat \<Rightarrow> real \<Rightarrow> real \<Rightarrow> real \<Rightarrow> real \<Rightarrow> rng \<Rightarrow> punto list \<times> rng" where
  "poblacion_inicial 0 min_lat max_lat min_lon max_lon g = ([], g)"
| "poblacion_inicial (Suc m) min_lat max_lat min_lon max_lon g =
     (case punto_aleatorio min_lat max_lat min_lon max_lon g of (p, g1) \<Rightarrow>
      (case poblacion_inicial m min_lat max_lat min_lon max_lon g1 of (resto, g2) \<Rightarrow>
         (p # resto, g2)))"

text \<open>The fitness of one individual as the loop calls it (\<open>borde_frac_penal\<close> at its default).\<close>

definition fitness_ciegos :: "args_puntos_ciegos \<Rightarrow> punto list \<Rightarrow> punto \<Rightarrow> py_error + real" where
  "fitness_ciegos args camaras ind =
     fitness_punto_completo ind camaras (radio_cobertura_m args) (max_interes_m args)
       (max_extrapolacion_m args) (k_vecinos args) 0.10"

definition evaluar_ciegos ::
  "args_puntos_ciegos \<Rightarrow> punto list \<Rightarrow> punto list \<Rightarrow> py_error + real list" where
  "evaluar_ciegos args camaras poblacion = py_collect (map (fitness_ciegos args camaras) poblacion)"

text \<open>
  Elitism, the same in both searches:
  \<open>orden = sorted(range(len(poblacion)), key=lambda i: fitnesses[i], reverse=True)\<close> and
  \<open>elites = [poblacion[i] for i in orden[:max(1, elitismo)]]\<close>.
\<close>

definition orden_de :: "real list \<Rightarrow> nat \<Rightarrow> nat list" where
  "orden_de fitnesses n = py_sorted_desc (\<lambda>i. fitnesses ! i) [0..<n]"

definition elites_de :: "'a list \<Rightarrow> real list \<Rightarrow> int \<Rightarrow> 'a list" where
  "elites_de poblacion fitnesses e =
     (let orden = orden_de fitnesses (length poblacion)
      in map (\<lambda>i. poblacion ! i) (py_slice_hasta (max 1 e) orden))"

function reproducir_ciegos ::
  "args_puntos_ciegos \<Rightarrow> real \<Rightarrow> real \<Rightarrow> real \<Rightarrow> real \<Rightarrow> punto list \<Rightarrow> punto list \<Rightarrow> rng
     \<Rightarrow> py_error + (punto list \<times> rng)" where
  "reproducir_ciegos args min_lat max_lat min_lon max_lon padres nueva g =
     (if int (length nueva) < tam_poblacion args
      then
        (case random_choice padres g of
           Inl e \<Rightarrow> Inl e
         | Inr (p1, g1) \<Rightarrow>
           (case random_choice padres g1 of
              Inl e \<Rightarrow> Inl e
            | Inr (p2, g2) \<Rightarrow>
              (case cruzar_blx_alpha p1 p2 (alpha_blx args) g2 of (hijo, g3) \<Rightarrow>
               (case mutar_gauss hijo min_lat max_lat min_lon max_lon 0.0007 0.0007 0.25 g3 of
                  (hijo', g4) \<Rightarrow>
                    reproducir_ciegos args min_lat max_lat min_lon max_lon padres
                      (nueva @ [hijo']) g4))))
      else Inr (nueva, g))"
  by pat_completeness auto
termination
  by (relation "measure (\<lambda>(args, _, _, _, _, _, nueva, _).
        nat (tam_poblacion args - int (length nueva)))") auto

definition generacion_ciegos ::
  "args_puntos_ciegos \<Rightarrow> punto list \<Rightarrow> real \<Rightarrow> real \<Rightarrow> real \<Rightarrow> real \<Rightarrow> punto list \<Rightarrow> rng
     \<Rightarrow> py_error + (punto list \<times> rng)" where
  "generacion_ciegos args camaras min_lat max_lat min_lon max_lon poblacion g =
     (case evaluar_ciegos args camaras poblacion of
        Inl e \<Rightarrow> Inl e
      | Inr fitnesses \<Rightarrow>
        (let elites = elites_de poblacion fitnesses (elitismo args) in
         (case seleccion_torneo poblacion fitnesses (k_torneo args) (Some (tam_poblacion args)) g of
            Inl e \<Rightarrow> Inl e
          | Inr (padres, g1) \<Rightarrow>
              reproducir_ciegos args min_lat max_lat min_lon max_lon padres elites g1)))"

fun bucle_ciegos ::
  "nat \<Rightarrow> args_puntos_ciegos \<Rightarrow> punto list \<Rightarrow> real \<Rightarrow> real \<Rightarrow> real \<Rightarrow> real \<Rightarrow> punto list \<Rightarrow> rng
     \<Rightarrow> py_error + (punto list \<times> rng)" where
  "bucle_ciegos 0 args camaras min_lat max_lat min_lon max_lon poblacion g = Inr (poblacion, g)"
| "bucle_ciegos (Suc m) args camaras min_lat max_lat min_lon max_lon poblacion g =
     (case generacion_ciegos args camaras min_lat max_lat min_lon max_lon poblacion g of
        Inl e \<Rightarrow> Inl e
      | Inr (nueva, g1) \<Rightarrow> bucle_ciegos m args camaras min_lat max_lat min_lon max_lon nueva g1)"

definition algoritmo_genetico_puntos_ciegos ::
  "punto list \<Rightarrow> args_puntos_ciegos \<Rightarrow> rng \<Rightarrow> py_error + (candidato list \<times> rng)" where
  "algoritmo_genetico_puntos_ciegos camaras args g =
     (if camaras = [] then Inr ([], g)
      else
        (case bbox camaras of
           Inl e \<Rightarrow> Inl e
         | Inr (min_lat0, max_lat0, min_lon0, max_lon0) \<Rightarrow>
           (let lat_span = max (max_lat0 - min_lat0) (1 / 10 ^ 9);
                lon_span = max (max_lon0 - min_lon0) (1 / 10 ^ 9);
                lat_margin = lat_span * bbox_margin_factor args;
                lon_margin = lon_span * bbox_margin_factor args;
                min_lat = min_lat0 - lat_margin;
                max_lat = max_lat0 + lat_margin;
                min_lon = min_lon0 - lon_margin;
                max_lon = max_lon0 + lon_margin
            in
            (case poblacion_inicial (nat (tam_poblacion args)) min_lat max_lat min_lon max_lon g of
               (poblacion, g1) \<Rightarrow>
               (case bucle_ciegos (nat (generaciones args)) args camaras
                       min_lat max_lat min_lon max_lon poblacion g1 of
                  Inl e \<Rightarrow> Inl e
                | Inr (final, g2) \<Rightarrow>
                  (case evaluar_ciegos args camaras final of
                     Inl e \<Rightarrow> Inl e
                   | Inr fitnesses_final \<Rightarrow>
                     (let candidatos =
                            map (\<lambda>((lat, lon), fit). (lat, lon, fit)) (zip final fitnesses_final);
                          candidatos = py_sorted_desc (\<lambda>(lat, lon, fit). fit) candidatos
                      in Inr (seleccionar_espaciados candidatos (min_separacion_m args)
                                (num_puntos_resultado args), g2))))))))"

section \<open>Coverage search (\<open>ga_cobertura.py\<close>)\<close>

subsection \<open>Evaluation grid\<close>

text \<open>
  The two nested \<open>while\<close> loops of \<open>generar_grid_puntos\<close>. They do not end when a step is
  not positive, so they are partial functions: \<open>None\<close> is the run that never returns.
\<close>

partial_function (option) grid_fila ::
  "real \<Rightarrow> real \<Rightarrow> real \<Rightarrow> real \<Rightarrow> punto list \<Rightarrow> punto list option" where
  "grid_fila lat lon max_lon step_lon pts =
     (if lon \<le> max_lon then grid_fila lat (lon + step_lon) max_lon step_lon (pts @ [(lat, lon)])
      else Some pts)"

partial_function (option) grid_filas ::
  "real \<Rightarrow> real \<Rightarrow> real \<Rightarrow> real \<Rightarrow> real \<Rightarrow> real \<Rightarrow> punto list \<Rightarrow> punto list option" where
  "grid_filas lat max_lat min_lon max_lon step_lat step_lon pts =
     (if lat \<le> max_lat
      then Option.bind (grid_fila lat min_lon max_lon step_lon pts)
             (\<lambda>pts'. grid_filas (lat + step_lat) max_lat min_lon max_lon step_lat step_lon pts')
      else Some pts)"

definition generar_grid_puntos ::
  "punto list \<Rightarrow> real \<Rightarrow> real \<Rightarrow> int \<Rightarrow> rng \<Rightarrow> (py_error + (punto list \<times> rng)) option" where
  "generar_grid_puntos camaras step_m margin_factor max_points g =
     (if camaras = [] then Some (Inr ([], g))
      else
        (case bbox camaras of
           Inl e \<Rightarrow> Some (Inl e)
         | Inr (min_lat0, max_lat0, min_lon0, max_lon0) \<Rightarrow>
           (let lat_span = max (max_lat0 - min_lat0) (1 / 10 ^ 9);
                lon_span = max (max_lon0 - min_lon0) (1 / 10 ^ 9);
                min_lat = min_lat0 - lat_span * margin_factor;
                max_lat = max_lat0 + lat_span * margin_factor;
                min_lon = min_lon0 - lon_span * margin_factor;
                max_lon = max_lon0 + lon_span * margin_factor;
                mid_lat = (min_lat + max_lat) / 2.0;
                m_per_deg_lat = 111320.0;
                m_per_deg_lon = 111320.0 * cos (radians mid_lat);
                step_lat = step_m / m_per_deg_lat;
                step_lon = step_m / max m_per_deg_lon (1 / 10 ^ 6)
            in
            (case grid_filas min_lat max_lat min_lon max_lon step_lat step_lon [] of
               None \<Rightarrow> None
             | Some pts \<Rightarrow>
               (if max_points \<noteq> 0 \<and> int (length pts) > max_points
                then (case random_sample pts max_points g of
                        Inl e \<Rightarrow> Some (Inl e)
                      | Inr (muestra, g') \<Rightarrow> Some (Inr (muestra, g')))
                else Some (Inr (pts, g)))))))"

subsection \<open>Coverage levels\<close>

definition contar_cobertura_en_punto :: "punto \<Rightarrow> punto list \<Rightarrow> real \<Rightarrow> int" where
  "contar_cobertura_en_punto punto camaras radio_m =
     (case punto of (lat, lon) \<Rightarrow>
        foldl (\<lambda>count (clat, clon).
                 if haversine_m lat lon clat clon \<le> radio_m then count + 1 else count)
          0 camaras)"

text \<open>The dictionary returned by \<open>metricas_niveles_cobertura\<close> always has the same five keys.\<close>

record metricas_cobertura =
  cobertura_total :: real
  sin_cobertura :: real
  nivel_1 :: real
  nivel_2 :: real
  nivel_3_mas :: real

definition contar_nivel :: "int \<times> int \<times> int \<times> int \<Rightarrow> int \<Rightarrow> int \<times> int \<times> int \<times> int" where
  "contar_nivel cs k =
     (case cs of (c0, c1, c2, c3) \<Rightarrow>
        if k \<le> 0 then (c0 + 1, c1, c2, c3)
        else if k = 1 then (c0, c1 + 1, c2, c3)
        else if k = 2 then (c0, c1, c2 + 1, c3)
        else (c0, c1, c2, c3 + 1))"

definition contar_niveles :: "punto list \<Rightarrow> punto list \<Rightarrow> real \<Rightarrow> int \<times> int \<times> int \<times> int" where
  "contar_niveles puntos_eval camaras_totales radio_m =
     foldl (\<lambda>cs p. contar_nivel cs (contar_cobertura_en_punto p camaras_totales radio_m))
       (0, 0, 0, 0) puntos_eval"

definition metricas_niveles_cobertura :: "punto list \<Rightarrow> punto list \<Rightarrow> real \<Rightarrow> metricas_cobertura" where
  "metricas_niveles_cobertura puntos_eval camaras_totales radio_m =
     (if puntos_eval = []
      then \<lparr>cobertura_total = 0.0, sin_cobertura = 100.0,
            nivel_1 = 0.0, nivel_2 = 0.0, nivel_3_mas = 0.0\<rparr>
      else
        (let n = real (length puntos_eval) in
         (case contar_niveles puntos_eval camaras_totales radio_m of (c0, c1, c2, c3) \<Rightarrow>
            (let sin_cob = (real_of_int c0 / n) * 100.0;
                 cov_total = 100.0 - sin_cob
             in \<lparr>cobertura_total = cov_total, sin_cobertura = sin_cob,
                  nivel_1 = (real_of_int c1 / n) * 100.0,
                  nivel_2 = (real_of_int c2 / n) * 100.0,
                  nivel_3_mas = (real_of_int c3 / n) * 100.0\<rparr>))))"

subsection \<open>Spacing penalty\<close>

fun penalizar_entre_nuevas :: "punto list \<Rightarrow> real \<Rightarrow> real \<Rightarrow> real \<Rightarrow> real" where
  "penalizar_entre_nuevas [] min_dist peso pen = pen"
| "penalizar_entre_nuevas (ci # resto) min_dist peso pen =
     penalizar_entre_nuevas resto min_dist peso
       (foldl (\<lambda>pen cj.
                 (let d = haversine_m (fst ci) (snd ci) (fst cj) (snd cj)
                  in if d < min_dist
                     then pen + peso * (1.0 - (d / max min_dist (1 / 10 ^ 6)))
                     else pen))
          pen resto)"

definition dmin_a_existentes :: "real \<Rightarrow> real \<Rightarrow> punto list \<Rightarrow> real option" where
  "dmin_a_existentes lat lon camaras_existentes =
     foldl (\<lambda>dmin (elat, elon).
              (let d = haversine_m lat lon elat elon
               in case dmin of None \<Rightarrow> Some d | Some m \<Rightarrow> if d < m then Some d else Some m))
       None camaras_existentes"

definition penalizar_camaras_muy_cercanas ::
  "punto list \<Rightarrow> punto list \<Rightarrow> real \<Rightarrow> real \<Rightarrow> real \<Rightarrow> real" where
  "penalizar_camaras_muy_cercanas camaras_nuevas camaras_existentes min_dist_entre_nuevas_m
       min_dist_a_existentes_m peso_penalizacion =
     (let pen = penalizar_entre_nuevas camaras_nuevas min_dist_entre_nuevas_m peso_penalizacion 0.0
      in if min_dist_a_existentes_m > 0
         then foldl (\<lambda>pen (lat, lon).
                       (case dmin_a_existentes lat lon camaras_existentes of
                          None \<Rightarrow> pen
                        | Some dmin \<Rightarrow>
                            if dmin < min_dist_a_existentes_m
                            then pen + (peso_penalizacion * 0.75)
                                       * (1.0 - (dmin / max min_dist_a_existentes_m (1 / 10 ^ 6)))
                            else pen))
                pen camaras_nuevas
         else pen)"

subsection \<open>Repair\<close>

text \<open>
  One sweep of \<open>_repair_separacion\<close> against the existing cameras: every point closer than
  the threshold to some existing camera is replaced, in place, by a fresh random point.
\<close>

fun repair_existentes ::
  "punto list \<Rightarrow> punto list \<Rightarrow> real \<Rightarrow> real \<Rightarrow> real \<Rightarrow> real \<Rightarrow> real \<Rightarrow> bool \<Rightarrow> rng
     \<Rightarrow> punto list \<times> bool \<times> rng" where
  "repair_existentes [] camaras_existentes min_lat max_lat min_lon max_lon
       min_dist_a_existentes_m changed g = ([], changed, g)"
| "repair_existentes ((lat, lon) # resto) camaras_existentes min_lat max_lat min_lon max_lon
       min_dist_a_existentes_m changed g =
     (if list_ex (\<lambda>(elat, elon). haversine_m lat lon elat elon < min_dist_a_existentes_m)
           camaras_existentes
      then
        (case punto_aleatorio min_lat max_lat min_lon max_lon g of (p, g1) \<Rightarrow>
         (case repair_existentes resto camaras_existentes min_lat max_lat min_lon max_lon
                 min_dist_a_existentes_m True g1 of
            (resto', changed', g2) \<Rightarrow> (p # resto', changed', g2)))
      else
        (case repair_existentes resto camaras_existentes min_lat max_lat min_lon max_lon
                min_dist_a_existentes_m changed g of
           (resto', changed', g2) \<Rightarrow> ((lat, lon) # resto', changed', g2)))"

text \<open>
  The sweep over the pairs \<open>i < j\<close>, on the list by index: replacing \<open>out[j]\<close> is seen by
  the later pairs.
\<close>

definition repair_par ::
  "real \<Rightarrow> real \<Rightarrow> real \<Rightarrow> real \<Rightarrow> real \<Rightarrow> nat \<Rightarrow> nat \<Rightarrow> punto list \<times> bool \<times> rng
     \<Rightarrow> punto list \<times> bool \<times> rng" where
  "repair_par min_lat max_lat min_lon max_lon min_dist_entre_nuevas_m i j st =
     (case st of (out, changed, g) \<Rightarrow>
        (let d = haversine_m (fst (out ! i)) (snd (out ! i)) (fst (out ! j)) (snd (out ! j))
         in if d < min_dist_entre_nuevas_m
            then (case punto_aleatorio min_lat max_lat min_lon max_lon g of
                    (p, g1) \<Rightarrow> (out[j := p], True, g1))
            else (out, changed, g)))"

definition repair_nuevas ::
  "real \<Rightarrow> real \<Rightarrow> real \<Rightarrow> real \<Rightarrow> real \<Rightarrow> punto list \<times> bool \<times> rng
     \<Rightarrow> punto list \<times> bool \<times> rng" where
  "repair_nuevas min_lat max_lat min_lon max_lon min_dist_entre_nuevas_m st =
     (let n = length (fst st)
      in foldl (\<lambda>st i.
                  foldl (\<lambda>st j. repair_par min_lat max_lat min_lon max_lon
                                   min_dist_entre_nuevas_m i j st)
                    st [i + 1..<n])
           st [0..<n])"

fun repair_iter ::
  "nat \<Rightarrow> punto list \<Rightarrow> real \<Rightarrow> real \<Rightarrow> real \<Rightarrow> real \<Rightarrow> real \<Rightarrow> real \<Rightarrow> punto list \<Rightarrow> rng
     \<Rightarrow> punto list \<times> rng" where
  "repair_iter 0 camaras_existentes min_lat max_lat min_lon max_lon
       min_dist_entre_nuevas_m min_dist_a_existentes_m out g = (out, g)"
| "repair_iter (Suc m) camaras_existentes min_lat max_lat min_lon max_lon
       min_dist_entre_nuevas_m min_dist_a_existentes_m out g =
     (let st1 = (if min_dist_a_existentes_m > 0
                 then repair_existentes out camaras_existentes min_lat max_lat min_lon max_lon
                        min_dist_a_existentes_m False g
                 else (out, False, g))
      in (case repair_nuevas min_lat max_lat min_lon max_lon min_dist_entre_nuevas_m st1 of
            (out2, changed, g2) \<Rightarrow>
              if \<not> changed then (out2, g2)
              else repair_iter m camaras_existentes min_lat max_lat min_lon max_lon
                     min_dist_entre_nuevas_m min_dist_a_existentes_m out2 g2))"

definition clamp_puntos :: "punto list \<Rightarrow> real \<Rightarrow> real \<Rightarrow> real \<Rightarrow> real \<Rightarrow> punto list" where
  "clamp_puntos ps min_lat max_lat min_lon max_lon =
     map (\<lambda>(a, b). (clamp a min_lat max_lat, clamp b min_lon max_lon)) ps"

definition repair_separacion ::
  "punto list \<Rightarrow> punto list \<Rightarrow> real \<Rightarrow> real \<Rightarrow> real \<Rightarrow> real \<Rightarrow> real \<Rightarrow> real \<Rightarrow> int \<Rightarrow> rng
     \<Rightarrow> punto list \<times> rng" where
  "repair_separacion ind camaras_existentes min_lat max_lat min_lon max_lon
       min_dist_entre_nuevas_m min_dist_a_existentes_m max_iters g =
     (case repair_iter (nat max_iters) camaras_existentes min_lat max_lat min_lon max_lon
             min_dist_entre_nuevas_m min_dist_a_existentes_m ind g of
        (out, g') \<Rightarrow> (clamp_puntos out min_lat max_lat min_lon max_lon, g'))"

subsection \<open>Coverage fitness\<close>

definition fitness_cobertura ::
  "punto list \<Rightarrow> punto list \<Rightarrow> punto list \<Rightarrow> real \<Rightarrow> bool \<Rightarrow> real \<Rightarrow> bool \<Rightarrow> real \<Rightarrow> real \<Rightarrow> real
     \<Rightarrow> real" where
  "fitness_cobertura puntos_eval camaras_existentes camaras_nuevas radio_m
       penalizar_sobrecobertura peso_sobrecobertura penalizar_cercania
       min_dist_entre_nuevas_m min_dist_a_existentes_m peso_cercania =
     (let cam_tot = camaras_existentes @ camaras_nuevas;
          met = metricas_niveles_cobertura puntos_eval cam_tot radio_m;
          score = cobertura_total met;
          score = (if penalizar_sobrecobertura
                   then score - peso_sobrecobertura * nivel_3_mas met
                   else score);
          score = (if penalizar_cercania \<and> camaras_nuevas \<noteq> []
                   then score - penalizar_camaras_muy_cercanas camaras_nuevas camaras_existentes
                                  min_dist_entre_nuevas_m min_dist_a_existentes_m peso_cercania
                   else score)
      in clamp score 0.0 100.0)"

subsection \<open>Crossover and mutation of a multi-point individual\<close>

fun cruzar_individuo_blx :: "punto list \<Rightarrow> punto list \<Rightarrow> real \<Rightarrow> rng \<Rightarrow> punto list \<times> rng" where
  "cruzar_individuo_blx (a # p1) (b # p2) alpha g =
     (case blx (fst a) (fst b) alpha g of (lat, g1) \<Rightarrow>
      (case blx (snd a) (snd b) alpha g1 of (lon, g2) \<Rightarrow>
       (case cruzar_individuo_blx p1 p2 alpha g2 of (hijo, g3) \<Rightarrow> ((lat, lon) # hijo, g3))))"
| "cruzar_individuo_blx p1 p2 alpha g = ([], g)"

fun mutar_individuo_gauss ::
  "punto list \<Rightarrow> real \<Rightarrow> real \<Rightarrow> real \<Rightarrow> real \<Rightarrow> real \<Rightarrow> real \<Rightarrow> real \<Rightarrow> rng \<Rightarrow> punto list \<times> rng" where
  "mutar_individuo_gauss [] min_lat max_lat min_lon max_lon prob_mut sigma_lat sigma_lon g = ([], g)"
| "mutar_individuo_gauss (p # resto) min_lat max_lat min_lon max_lon prob_mut sigma_lat sigma_lon g =
     (case mutar_gauss p min_lat max_lat min_lon max_lon sigma_lat sigma_lon prob_mut g of
        (p', g1) \<Rightarrow>
        (case mutar_individuo_gauss resto min_lat max_lat min_lon max_lon
                prob_mut sigma_lat sigma_lon g1 of
           (out, g2) \<Rightarrow> (p' # out, g2)))"

subsection \<open>The generational loop of the coverage search\<close>

text \<open>The keyword arguments of \<open>algoritmo_genetico_mejorar_cobertura\<close>, after the cameras.\<close>

record args_cobertura =
  n_camaras_nuevas :: int
  radio_m :: real
  puntos_eval :: "punto list option"
  step_grid_m :: real
  grid_max_points :: int
  tam_poblacion :: int
  generaciones :: int
  elitismo :: int
  k_torneo :: int
  alpha_blx :: real
  bbox_margin_factor :: real
  penalizar_sobrecobertura :: bool
  penalizar_cercania :: bool
  min_dist_entre_nuevas_m :: real
  min_dist_a_existentes_m :: real
  peso_cercania :: real
  puntos_semilla :: "punto list option"
  prob_usar_semilla :: real

definition args_cobertura_defecto :: args_cobertura where
  "args_cobertura_defecto =
     \<lparr>n_camaras_nuevas = 5, radio_m = 120.0, puntos_eval = None, step_grid_m = 150.0,
      grid_max_points = 6000, tam_poblacion = 80, generaciones = 80, elitismo = 3,
      k_torneo = 4, alpha_blx = 0.5, bbox_margin_factor = 0.12,
      penalizar_sobrecobertura = True, penalizar_cercania = True,
      min_dist_entre_nuevas_m = 180.0, min_dist_a_existentes_m = 60.0, peso_cercania = 10.0,
      puntos_semilla = None, prob_usar_semilla = 0.60\<rparr>"

text \<open>The dictionary the search returns: its three keys, the metrics as a dictionary.\<close>

record resultado_cobertura =
  camaras_nuevas :: "punto list"
  fitness :: real
  metricas :: "string \<rightharpoonup> real"

definition dict_de_metricas :: "metricas_cobertura \<Rightarrow> (string \<rightharpoonup> real)" where
  "dict_de_metricas met =
     [''cobertura_total'' \<mapsto> cobertura_total met,
      ''sin_cobertura'' \<mapsto> sin_cobertura met,
      ''nivel_1'' \<mapsto> nivel_1 met,
      ''nivel_2'' \<mapsto> nivel_2 met,
      ''nivel_3_mas'' \<mapsto> nivel_3_mas met]"

text \<open>The loop state: the current population and the best individual seen so far.\<close>

record estado_cobertura =
  poblacion :: "punto list list"
  best_ind :: "punto list"
  best_fit :: real

text \<open>The \<open>while len(ind) < n_camaras_nuevas\<close> loop of \<open>_crear_individuo\<close>.\<close>

function completar_individuo ::
  "int \<Rightarrow> real \<Rightarrow> real \<Rightarrow> real \<Rightarrow> real \<Rightarrow> punto list \<Rightarrow> rng \<Rightarrow> punto list \<times> rng" where
  "completar_individuo n min_lat max_lat min_lon max_lon ind g =
     (if int (length ind) < n
      then (case punto_aleatorio min_lat max_lat min_lon max_lon g of
              (p, g1) \<Rightarrow> completar_individuo n min_lat max_lat min_lon max_lon (ind @ [p]) g1)
      else (ind, g))"
  by pat_completeness auto
termination
  by (relation "measure (\<lambda>(n, _, _, _, _, ind, _). nat (n - int (length ind)))") auto

definition crear_individuo ::
  "args_cobertura \<Rightarrow> punto list \<Rightarrow> punto list \<Rightarrow> real \<Rightarrow> real \<Rightarrow> real \<Rightarrow> real \<Rightarrow> rng
     \<Rightarrow> py_error + (punto list \<times> rng)" where
  "crear_individuo args camaras_existentes semillas min_lat max_lat min_lon max_lon g =
     (case (if semillas \<noteq> []
            then (case random_random g of (u, g1) \<Rightarrow>
                    if u < prob_usar_semilla args
                    then (let tomar = min (int (length semillas)) (n_camaras_nuevas args)
                          in random_sample semillas tomar g1)
                    else Inr ([], g1))
            else Inr ([], g)) of
        Inl e \<Rightarrow> Inl e
      | Inr (ind, g2) \<Rightarrow>
        (case completar_individuo (n_camaras_nuevas args) min_lat max_lat min_lon max_lon ind g2 of
           (ind, g3) \<Rightarrow>
           (let ind = clamp_puntos ind min_lat max_lat min_lon max_lon
            in if penalizar_cercania args
               then Inr (repair_separacion ind camaras_existentes min_lat max_lat min_lon max_lon
                           (min_dist_entre_nuevas_m args) (min_dist_a_existentes_m args) 35 g3)
               else Inr (ind, g3))))"

fun crear_poblacion ::
  "nat \<Rightarrow> args_cobertura \<Rightarrow> punto list \<Rightarrow> punto list \<Rightarrow> real \<Rightarrow> real \<Rightarrow> real \<Rightarrow> real \<Rightarrow> rng
     \<Rightarrow> py_error + (punto list list \<times> rng)" where
  "crear_poblacion 0 args camaras_existentes semillas min_lat max_lat min_lon max_lon g =
     Inr ([], g)"
| "crear_poblacion (Suc m) args camaras_existentes semillas min_lat max_lat min_lon max_lon g =
     (case crear_individuo args camaras_existentes semillas min_lat max_lat min_lon max_lon g of
        Inl e \<Rightarrow> Inl e
      | Inr (ind, g1) \<Rightarrow>
        (case crear_poblacion m args camaras_existentes semillas
                min_lat max_lat min_lon max_lon g1 of
           Inl e \<Rightarrow> Inl e
         | Inr (resto, g2) \<Rightarrow> Inr (ind # resto, g2)))"

text \<open>
  The fitness of one individual as the loop computes it: \<open>fitness_cobertura\<close> with
  \<open>peso_sobrecobertura\<close> at its default, clamped once more.
\<close>

definition fitness_ind :: "args_cobertura \<Rightarrow> punto list \<Rightarrow> punto list \<Rightarrow> punto list \<Rightarrow> real" where
  "fitness_ind args puntos camaras_existentes ind =
     clamp (fitness_cobertura puntos camaras_existentes ind (radio_m args)
              (penalizar_sobrecobertura args) 0.15 (penalizar_cercania args)
              (min_dist_entre_nuevas_m args) (min_dist_a_existentes_m args) (peso_cercania args))
       0.0 100.0"

definition evaluar_cobertura ::
  "args_cobertura \<Rightarrow> punto list \<Rightarrow> punto list \<Rightarrow> punto list list \<Rightarrow> real list" where
  "evaluar_cobertura args puntos camaras_existentes pob =
     map (fitness_ind args puntos camaras_existentes) pob"

function reproducir_cobertura ::
  "args_cobertura \<Rightarrow> punto list \<Rightarrow> real \<Rightarrow> real \<Rightarrow> real \<Rightarrow> real \<Rightarrow> punto list list
     \<Rightarrow> punto list list \<Rightarrow> rng \<Rightarrow> py_error + (punto list list \<times> rng)" where
  "reproducir_cobertura args camaras_existentes min_lat max_lat min_lon max_lon padres nueva g =
     (if int (length nueva) < tam_poblacion args
      then
        (case random_choice padres g of
           Inl e \<Rightarrow> Inl e
         | Inr (p1, g1) \<Rightarrow>
           (case random_choice padres g1 of
              Inl e \<Rightarrow> Inl e
            | Inr (p2, g2) \<Rightarrow>
              (case cruzar_individuo_blx p1 p2 (alpha_blx args) g2 of (hijo, g3) \<Rightarrow>
               (case mutar_individuo_gauss hijo min_lat max_lat min_lon max_lon
                       0.35 0.0007 0.0007 g3 of (hijo, g4) \<Rightarrow>
                (let hijo = clamp_puntos hijo min_lat max_lat min_lon max_lon in
                 (case (if penalizar_cercania args
                        then repair_separacion hijo camaras_existentes
                               min_lat max_lat min_lon max_lon
                               (min_dist_entre_nuevas_m args) (min_dist_a_existentes_m args) 35 g4
                        else (hijo, g4)) of
                    (hijo, g5) \<Rightarrow>
                      reproducir_cobertura args camaras_existentes
                        min_lat max_lat min_lon max_lon padres (nueva @ [hijo]) g5))))))
      else Inr (nueva, g))"
  by pat_completeness auto
termination
  by (relation "measure (\<lambda>(args, _, _, _, _, _, _, nueva, _).
        nat (tam_poblacion args - int (length nueva)))") auto

definition generacion_cobertura ::
  "args_cobertura \<Rightarrow> punto list \<Rightarrow> punto list \<Rightarrow> real \<Rightarrow> real \<Rightarrow> real \<Rightarrow> real
     \<Rightarrow> estado_cobertura \<Rightarrow> rng \<Rightarrow> py_error + (estado_cobertura \<times> rng)" where
  "generacion_cobertura args puntos camaras_existentes min_lat max_lat min_lon max_lon st g =
     (let pob = poblacion st;
          fitnesses = evaluar_cobertura args puntos camaras_existentes pob
      in
      (case py_max_key (\<lambda>i. fitnesses ! i) [0..<length pob] of
         Inl e \<Rightarrow> Inl e
       | Inr i_best \<Rightarrow>
         (let mejora = (fitnesses ! i_best > best_fit st);
              fit' = (if mejora then fitnesses ! i_best else best_fit st);
              ind' = (if mejora then pob ! i_best else best_ind st);
              elites = elites_de pob fitnesses (elitismo args)
          in
          (case seleccion_torneo pob fitnesses (k_torneo args) (Some (tam_poblacion args)) g of
             Inl e \<Rightarrow> Inl e
           | Inr (padres, g1) \<Rightarrow>
             (case reproducir_cobertura args camaras_existentes
                     min_lat max_lat min_lon max_lon padres elites g1 of
                Inl e \<Rightarrow> Inl e
              | Inr (nueva, g2) \<Rightarrow>
                  Inr (\<lparr>poblacion = nueva, best_ind = ind', best_fit = fit'\<rparr>, g2))))))"

fun bucle_cobertura ::
  "nat \<Rightarrow> args_cobertura \<Rightarrow> punto list \<Rightarrow> punto list \<Rightarrow> real \<Rightarrow> real \<Rightarrow> real \<Rightarrow> real
     \<Rightarrow> estado_cobertura \<Rightarrow> rng \<Rightarrow> py_error + (estado_cobertura \<times> rng)" where
  "bucle_cobertura 0 args puntos camaras_existentes min_lat max_lat min_lon max_lon st g =
     Inr (st, g)"
| "bucle_cobertura (Suc m) args puntos camaras_existentes min_lat max_lat min_lon max_lon st g =
     (case generacion_cobertura args puntos camaras_existentes
             min_lat max_lat min_lon max_lon st g of
        Inl e \<Rightarrow> Inl e
      | Inr (st1, g1) \<Rightarrow>
          bucle_cobertura m args puntos camaras_existentes min_lat max_lat min_lon max_lon st1 g1)"

text \<open>
  The evaluation points: the caller's, or the generated grid; when that is empty, a sample
  of the cameras themselves.
\<close>

definition puntos_de_evaluacion ::
  "args_cobertura \<Rightarrow> punto list \<Rightarrow> rng \<Rightarrow> (py_error + (punto list \<times> rng)) option" where
  "puntos_de_evaluacion args camaras_existentes g =
     (case (case puntos_eval args of
              None \<Rightarrow> generar_grid_puntos camaras_existentes (step_grid_m args) 0.06
                        (grid_max_points args) g
            | Some pe \<Rightarrow> Some (Inr (pe, g))) of
        None \<Rightarrow> None
      | Some (Inl e) \<Rightarrow> Some (Inl e)
      | Some (Inr (pe, g1)) \<Rightarrow>
          (if pe = []
           then Some (random_sample camaras_existentes
                        (min 200 (int (length camaras_existentes))) g1)
           else Some (Inr (pe, g1))))"

text \<open>The search proper, from the evaluation points on.\<close>

definition buscar_cobertura ::
  "args_cobertura \<Rightarrow> punto list \<Rightarrow> punto list \<Rightarrow> rng \<Rightarrow> py_error + (resultado_cobertura \<times> rng)" where
  "buscar_cobertura args camaras_existentes puntos g =
     (case bbox camaras_existentes of
        Inl e \<Rightarrow> Inl e
      | Inr (min_lat0, max_lat0, min_lon0, max_lon0) \<Rightarrow>
        (let lat_span = max (max_lat0 - min_lat0) (1 / 10 ^ 9);
             lon_span = max (max_lon0 - min_lon0) (1 / 10 ^ 9);
             min_lat = min_lat0 - lat_span * bbox_margin_factor args;
             max_lat = max_lat0 + lat_span * bbox_margin_factor args;
             min_lon = min_lon0 - lon_span * bbox_margin_factor args;
             max_lon = max_lon0 + lon_span * bbox_margin_factor args;
             semillas = (case puntos_semilla args of None \<Rightarrow> [] | Some ss \<Rightarrow> ss);
             semillas = clamp_puntos semillas min_lat max_lat min_lon max_lon
         in
         (case crear_poblacion (nat (tam_poblacion args)) args camaras_existentes semillas
                 min_lat max_lat min_lon max_lon g of
            Inl e \<Rightarrow> Inl e
          | Inr (pob, g1) \<Rightarrow>
            (case bucle_cobertura (nat (generaciones args)) args puntos camaras_existentes
                    min_lat max_lat min_lon max_lon
                    \<lparr>poblacion = pob, best_ind = [], best_fit = - 1.0\<rparr> g1 of
               Inl e \<Rightarrow> Inl e
             | Inr (st, g2) \<Rightarrow>
               (let cam_tot = camaras_existentes @ best_ind st;
                    met = metricas_niveles_cobertura puntos cam_tot (radio_m args)
                in Inr (\<lparr>camaras_nuevas = best_ind st, fitness = best_fit st,
                         metricas = dict_de_metricas met\<rparr>, g2))))))"

definition algoritmo_genetico_mejorar_cobertura ::
  "punto list \<Rightarrow> args_cobertura \<Rightarrow> rng \<Rightarrow> (py_error + (resultado_cobertura \<times> rng)) option" where
  "algoritmo_genetico_mejorar_cobertura camaras_existentes_in args g =
     (if camaras_existentes_in = []
      then Some (Inr (\<lparr>camaras_nuevas = [], fitness = 0.0, metricas = Map.empty\<rparr>, g))
      else
        (let camaras_existentes = map get_lat_lon camaras_existentes_in in
         (case puntos_de_evaluacion args camaras_existentes g of
            None \<Rightarrow> None
          | Some (Inl e) \<Rightarrow> Some (Inl e)
          | Some (Inr (puntos, g1)) \<Rightarrow> Some (buscar_cobertura args camaras_existentes puntos g1))))"

text \<open>What a caller reads off a run: the number of proposed cameras and their fitness.\<close>

definition resumen_cobertura ::
  "(py_error + (resultado_cobertura \<times> rng)) option \<Rightarrow> (py_error + (nat \<times> real)) option" where
  "resumen_cobertura res =
     (case res of
        None \<Rightarrow> None
      | Some (Inl e) \<Rightarrow> Some (Inl e)
      | Some (Inr (r, g)) \<Rightarrow> Some (Inr (length (camaras_nuevas r), fitness r)))"

section \<open>Basic facts about the helpers\<close>

lemma clamp_range: "lo \<le> hi \<Longrightarrow> lo \<le> clamp v lo hi \<and> clamp v lo hi \<le> hi"
  by (simp add: clamp_def)

lemma py_min_ok: "xs \<noteq> [] \<Longrightarrow> \<exists>m. py_min xs = Inr m"
  by (cases xs) simp_all

lemma py_max_ok: "xs \<noteq> [] \<Longrightarrow> \<exists>m. py_max xs = Inr m"
  by (cases xs) simp_all

lemma foldl_min_Min: "foldl (\<lambda>b y. if y < b then y else b) x xs = Min (set (x # xs))"
proof (induction xs arbitrary: x)
  case Nil
  then show ?case by simp
next
  case (Cons y ys)
  have "Min (set ((if y < x then y else x) # ys)) = Min (set (x # y # ys))"
    by (cases ys) (auto simp: min_def)
  with Cons show ?case by simp
qed

lemma py_min_Min: "xs \<noteq> [] \<Longrightarrow> py_min xs = Inr (Min (set xs))"
  by (cases xs) (simp_all only: py_min.simps foldl_min_Min, simp)

lemma bbox_ok: "camaras \<noteq> [] \<Longrightarrow> \<exists>a b c d. bbox camaras = Inr (a, b, c, d)"
proof -
  assume ne: "camaras \<noteq> []"
  then obtain c cs where "camaras = c # cs" by (cases camaras) auto
  then show ?thesis by (simp add: bbox_def)
qed

lemma centroide_ok: "camaras \<noteq> [] \<Longrightarrow> \<exists>c. centroide camaras = Inr c"
  by (simp add: centroide_def py_div_def)

lemma k_efectivo_range: "0 < n \<Longrightarrow> 1 \<le> k_efectivo k n \<and> k_efectivo k n \<le> int n"
  by (simp add: k_efectivo_def)

lemma dist_prom_ok:
  "camaras \<noteq> [] \<Longrightarrow> \<exists>d. dist_prom_k_vecinas lat lon camaras k = Inr d"
  using k_efectivo_range[of "length camaras" k]
  by (simp add: dist_prom_k_vecinas_def py_div_def distancias_def Let_def)

lemma dist_min_ok: "camaras \<noteq> [] \<Longrightarrow> \<exists>d. dist_min_a_camaras lat lon camaras = Inr d"
  by (simp add: dist_min_a_camaras_def distancias_def py_min_ok)

lemma combinacion_acotada:
  fixes u v t :: real
  assumes "- 1 \<le> u" "u \<le> 1" "- 1 \<le> v" "v \<le> 1" "- 1 \<le> t" "t \<le> 1"
  shows "- 2 \<le> (1 + t) * u + (1 - t) * v \<and> (1 + t) * u + (1 - t) * v \<le> 2"
proof -
  have a: "0 \<le> 1 + t" and b: "0 \<le> 1 - t" using assms by simp_all
  have "(1 + t) * u \<le> (1 + t) * 1" using a assms(2) by (rule mult_left_mono[rotated])
  moreover have "(1 - t) * v \<le> (1 - t) * 1" using b assms(4) by (rule mult_left_mono[rotated])
  moreover have "(1 + t) * (- 1) \<le> (1 + t) * u" using a assms(1) by (rule mult_left_mono[rotated])
  moreover have "(1 - t) * (- 1) \<le> (1 - t) * v" using b assms(3) by (rule mult_left_mono[rotated])
  ultimately show ?thesis by simp
qed

lemma sin_cuadrado_mitad: "(sin (x / 2))\<^sup>2 = (1 - cos x) / (2::real)"
  using cos_double_sin[of "x / 2"] by simp

lemma haversine_a_forma:
  "haversine_a lat1 lon1 lat2 lon2 =
     (2 - ((1 + cos (radians (lon2 - lon1))) * cos (radians lat2 - radians lat1)
           + (1 - cos (radians (lon2 - lon1))) * (- cos (radians lat2 + radians lat1)))) / 4"
proof -
  have r: "radians (lat2 - lat1) = radians lat2 - radians lat1"
    by (simp add: radians_def algebra_simps diff_divide_distrib)
  show ?thesis
    unfolding haversine_a_def Let_def r
    by (simp add: sin_cuadrado_mitad cos_diff cos_add field_simps)
qed

lemma haversine_a_range: "0 \<le> haversine_a lat1 lon1 lat2 lon2 \<and> haversine_a lat1 lon1 lat2 lon2 \<le> 1"
proof -
  have "- 2 \<le> (1 + cos (radians (lon2 - lon1))) * cos (radians lat2 - radians lat1)
           + (1 - cos (radians (lon2 - lon1))) * (- cos (radians lat2 + radians lat1))
        \<and> (1 + cos (radians (lon2 - lon1))) * cos (radians lat2 - radians lat1)
           + (1 - cos (radians (lon2 - lon1))) * (- cos (radians lat2 + radians lat1)) \<le> 2"
    by (rule combinacion_acotada) simp_all
  then show ?thesis unfolding haversine_a_forma by simp
qed

lemma haversine_m_nonneg: "0 \<le> haversine_m lat1 lon1 lat2 lon2"
proof -
  have "sqrt (haversine_a lat1 lon1 lat2 lon2) \<in> {0..1}"
    using haversine_a_range[of lat1 lon1 lat2 lon2] by (simp add: real_sqrt_le_1_iff)
  then have "0 \<le> arcsin (sqrt (haversine_a lat1 lon1 lat2 lon2))" by (rule arcsin_nonneg)
  then show ?thesis by (simp add: haversine_m_def)
qed

lemma haversine_m_mismo: "haversine_m lat lon lat lon = 0"
  by (simp add: haversine_m_def haversine_a_def radians_def)

lemma distancias_nonneg: "y \<in> set (distancias lat lon camaras) \<Longrightarrow> 0 \<le> y"
  by (auto simp: distancias_def get_lat_lon_def haversine_m_nonneg)

lemma dist_min_nonneg:
  assumes "dist_min_a_camaras lat lon camaras = Inr d"
  shows "0 \<le> d"
proof -
  have ne: "distancias lat lon camaras \<noteq> []"
    using assms by (auto simp: dist_min_a_camaras_def)
  then have "d = Min (set (distancias lat lon camaras))"
    using assms by (simp add: dist_min_a_camaras_def py_min_Min)
  then have "d \<in> set (distancias lat lon camaras)"
    using ne Min_in[of "set (distancias lat lon camaras)"] by simp
  then show ?thesis by (rule distancias_nonneg)
qed

lemma fitness_punto_completo_range:
  "\<exists>v. fitness_punto_completo p camaras r mi me k b = Inr v \<and> 0 \<le> v \<and> v \<le> 1"
proof (cases "camaras = []")
  case True
  then show ?thesis by (simp add: fitness_punto_completo_def)
next
  case False
  obtain dmin where 1: "dist_min_a_camaras (fst p) (snd p) camaras = Inr dmin"
    using dist_min_ok[OF False] by blast
  obtain dk where 2: "dist_prom_k_vecinas (fst p) (snd p) camaras k = Inr dk"
    using dist_prom_ok[OF False] by blast
  obtain c_lat c_lon where 3: "centroide camaras = Inr (c_lat, c_lon)"
    using centroide_ok[OF False] by (metis surj_pair)
  obtain a1 a2 a3 a4 where 4: "bbox camaras = Inr (a1, a2, a3, a4)"
    using bbox_ok[OF False] by blast
  have c1: "\<And>v. 0 \<le> clamp v 0 1 \<and> clamp v 0 1 \<le> 1" using clamp_range[of 0 1] by simp
  have c2: "\<And>v. 0 \<le> clamp v 0 0.05 \<and> clamp v 0 0.05 \<le> 1"
  proof -
    fix v :: real
    have "0 \<le> clamp v 0 0.05 \<and> clamp v 0 0.05 \<le> 0.05" using clamp_range[of 0 "0.05" v] by simp
    moreover have "(0.05::real) \<le> 1" by simp
    ultimately show "0 \<le> clamp v 0 0.05 \<and> clamp v 0 0.05 \<le> 1" by linarith
  qed
  show ?thesis
  proof (cases "dmin \<le> r")
    case True
    with False 1 c2 show ?thesis
      by (simp add: fitness_punto_completo_def Let_def split del: if_split)
  next
    case nc: False
    have "\<exists>x. fitness_punto_completo p camaras r mi me k b = Inr (clamp x 0 1)"
      using False 1 2 3 4 nc
      by (simp add: fitness_punto_completo_def Let_def split del: if_split) blast
    with c1 show ?thesis by auto
  qed
qed

lemma fitness_cobertura_range:
  "0 \<le> fitness_cobertura pe ce cn r ps ws pc d1 d2 w \<and> fitness_cobertura pe ce cn r ps ws pc d1 d2 w \<le> 100"
  unfolding fitness_cobertura_def Let_def using clamp_range[of 0 100] by simp

lemma contar_nivel_suma:
  "contar_nivel (c0, c1, c2, c3) k = (d0, d1, d2, d3) \<Longrightarrow> d0 + d1 + d2 + d3 = c0 + c1 + c2 + c3 + 1"
  by (auto simp: contar_nivel_def split: if_splits)

lemma foldl_contar_suma:
  "foldl (\<lambda>cs p. contar_nivel cs (f p)) (c0, c1, c2, c3) ps = (d0, d1, d2, d3)
     \<Longrightarrow> d0 + d1 + d2 + d3 = c0 + c1 + c2 + c3 + int (length ps)"
proof (induction ps arbitrary: c0 c1 c2 c3)
  case Nil
  then show ?case by simp
next
  case (Cons p ps)
  obtain e0 e1 e2 e3 where e: "contar_nivel (c0, c1, c2, c3) (f p) = (e0, e1, e2, e3)"
    by (metis prod_cases4)
  from Cons.prems e have "foldl (\<lambda>cs p. contar_nivel cs (f p)) (e0, e1, e2, e3) ps = (d0, d1, d2, d3)"
    by simp
  from Cons.IH[OF this] contar_nivel_suma[OF e] show ?case by simp
qed

lemma contar_niveles_suma:
  "contar_niveles ps cams r = (d0, d1, d2, d3) \<Longrightarrow> d0 + d1 + d2 + d3 = int (length ps)"
  unfolding contar_niveles_def using foldl_contar_suma[of _ 0 0 0 0 ps d0 d1 d2 d3] by simp

section \<open>Range of the two fitness functions\<close>

text \<open>
  C1. For every candidate point, camera set and threshold parameters,
  \<open>fitness_punto_completo\<close> returns (it does not raise) a value in \<open>[0, 1]\<close>; for every
  evaluation grid, existing cameras, candidate set, radius and penalty settings,
  \<open>fitness_cobertura\<close> returns a value in \<open>[0, 100]\<close>.
\<close>

theorem fitness_en_rango:
  "(\<exists>v. fitness_punto_completo p camaras r mi me k b = Inr v \<and> 0 \<le> v \<and> v \<le> 1)
   \<and> 0 \<le> fitness_cobertura pe ce cn rm ps ws pc d1 d2 w
   \<and> fitness_cobertura pe ce cn rm ps ws pc d1 d2 w \<le> 100"
  using fitness_punto_completo_range fitness_cobertura_range by simp

section \<open>The covered branch of the blind-spot fitness\<close>

text \<open>
  C5, as stated, fails: a point that coincides with a camera has \<open>dmin = 0 \<le> radius\<close>
  and its score is exactly zero.
\<close>

theorem cubierto_cero_contraejemplo:
  "dist_min_a_camaras 0 0 [(0, 0)] = Inr 0 \<and> (0::real) \<le> 80
   \<and> fitness_punto_completo (0, 0) [(0, 0)] 80 350 900 4 0.10 = Inr 0"
  by (simp add: distancias_def get_lat_lon_def haversine_m_mismo
        fitness_punto_completo_def dist_min_a_camaras_def clamp_def)

text \<open>
  C5, amended. For a non-empty camera set the minimum distance \<open>dmin\<close> exists and is not
  negative; when \<open>dmin \<le> radius\<close> the score is \<open>0.05 * dmin / max(radius, 1e-9)\<close>, it lies
  in \<open>[0, 0.05]\<close>, and it is zero exactly when \<open>dmin = 0\<close>.
\<close>

theorem puntaje_cubierto:
  assumes "camaras \<noteq> []"
  shows "\<exists>dmin. dist_min_a_camaras (fst p) (snd p) camaras = Inr dmin \<and> 0 \<le> dmin
     \<and> (dmin \<le> r \<longrightarrow>
          fitness_punto_completo p camaras r mi me k b
            = Inr (0.05 * (dmin / max r (1 / 10 ^ 9)))
          \<and> 0 \<le> 0.05 * (dmin / max r (1 / 10 ^ 9))
          \<and> 0.05 * (dmin / max r (1 / 10 ^ 9)) \<le> 0.05
          \<and> (0.05 * (dmin / max r (1 / 10 ^ 9)) = 0 \<longleftrightarrow> dmin = 0))"
proof -
  obtain dmin where d: "dist_min_a_camaras (fst p) (snd p) camaras = Inr dmin"
    using dist_min_ok[OF assms] by blast
  have nn: "0 \<le> dmin" using d by (rule dist_min_nonneg)
  have "fitness_punto_completo p camaras r mi me k b = Inr (0.05 * (dmin / max r (1 / 10 ^ 9)))
          \<and> 0 \<le> 0.05 * (dmin / max r (1 / 10 ^ 9))
          \<and> 0.05 * (dmin / max r (1 / 10 ^ 9)) \<le> 0.05
          \<and> (0.05 * (dmin / max r (1 / 10 ^ 9)) = 0 \<longleftrightarrow> dmin = 0)" if le: "dmin \<le> r"
  proof -
    define q where "q = dmin / max r (1 / 10 ^ 9)"
    have mpos: "0 < max r (1 / 10 ^ 9)" by (simp add: max_def)
    have q0: "0 \<le> q" unfolding q_def using nn mpos by simp
    have "dmin \<le> max r (1 / 10 ^ 9)" using le by simp
    then have q1: "q \<le> 1" unfolding q_def using mpos by (simp add: divide_le_eq)
    have qz: "q = 0 \<longleftrightarrow> dmin = 0" unfolding q_def using mpos by simp
    have cl: "clamp (0.05 * q) 0 0.05 = 0.05 * q"
      using q0 q1 by (simp add: clamp_def max_def min_def)
    have "fitness_punto_completo p camaras r mi me k b = Inr (clamp (0.05 * q) 0 0.05)"
      using assms d le unfolding q_def
      by (simp add: fitness_punto_completo_def Let_def split del: if_split)
    with cl q0 q1 qz show ?thesis unfolding q_def by simp
  qed
  with d nn show ?thesis by blast
qed

lemma haversine_m_media_vuelta: "haversine_m 0 0 0 180 = 6371000 * pi"
  by (simp add: haversine_m_def haversine_a_def radians_def)

text \<open>
  A witness for C5 with a positive distance: the camera is half a turn of longitude away
  from the point, and the radius is large enough to cover it.
\<close>

theorem puntaje_cubierto_testigo:
  "[(0, 180)] \<noteq> ([] :: punto list)
   \<and> dist_min_a_camaras 0 0 [(0, 180)] = Inr (6371000 * pi)
   \<and> 6371000 * pi \<le> 6371000 * 4
   \<and> fitness_punto_completo (0, 0) [(0, 180)] (6371000 * 4) 350 900 4 0.10
        = Inr (0.05 * (6371000 * pi / max (6371000 * 4) (1 / 10 ^ 9)))
   \<and> 0.05 * (6371000 * pi / max (6371000 * 4) (1 / 10 ^ 9)) \<noteq> (0::real)"
proof -
  have d: "dist_min_a_camaras 0 0 [(0, 180)] = Inr (6371000 * pi)"
    by (simp add: dist_min_a_camaras_def distancias_def get_lat_lon_def haversine_m_media_vuelta)
  have le: "6371000 * pi \<le> 6371000 * (4::real)" using pi_less_4 by simp
  from puntaje_cubierto[of "[(0, 180)]" "(0, 0)" "6371000 * 4" 350 900 4 "0.10"] d le
  show ?thesis by auto
qed

section \<open>The neighbour count of the interiority term\<close>

text \<open>
  C9. For a non-empty camera set and every integer \<open>k\<close>, the neighbour count that
  \<open>_dist_prom_k_vecinas\<close> uses lies between 1 and the number of cameras, the average is
  the mean of that many nearest distances (no division by zero), and
  \<open>fitness_punto_completo\<close> returns a value.
\<close>

theorem vecinos_definido:
  assumes "camaras \<noteq> []"
  shows "1 \<le> k_efectivo k (length camaras)
    \<and> k_efectivo k (length camaras) \<le> int (length camaras)
    \<and> dist_prom_k_vecinas lat lon camaras k
        = Inr (sum_list (take (nat (k_efectivo k (length camaras)))
                           (sort (distancias lat lon camaras)))
               / real_of_int (k_efectivo k (length camaras)))
    \<and> (\<exists>v. fitness_punto_completo (lat, lon) camaras r mi me k b = Inr v)"
proof -
  have kr: "1 \<le> k_efectivo k (length camaras) \<and> k_efectivo k (length camaras) \<le> int (length camaras)"
    using assms k_efectivo_range[of "length camaras" k] by simp
  have "dist_prom_k_vecinas lat lon camaras k
        = Inr (sum_list (take (nat (k_efectivo k (length camaras)))
                           (sort (distancias lat lon camaras)))
               / real_of_int (k_efectivo k (length camaras)))"
    using kr by (simp add: dist_prom_k_vecinas_def Let_def py_div_def py_slice_hasta_def distancias_def)
  moreover have "\<exists>v. fitness_punto_completo (lat, lon) camaras r mi me k b = Inr v"
    using fitness_punto_completo_range[of "(lat, lon)" camaras r mi me k b] by blast
  ultimately show ?thesis using kr by simp
qed

text \<open>A witness for C9 at a negative \<open>k\<close>.\<close>

theorem vecinos_definido_testigo:
  "[(0, 0)] \<noteq> ([] :: punto list)
   \<and> k_efectivo (- 3) (length [(0 :: real, 0 :: real)]) = 1
   \<and> dist_prom_k_vecinas 0 0 [(0, 0)] (- 3) = Inr 0
   \<and> fitness_punto_completo (0, 0) [(0, 0)] 80 350 900 (- 3) 0.10 = Inr 0"
  using vecinos_definido[of "[(0, 0)]" "- 3" 0 0 80 350 900 "0.10"]
  by (simp add: k_efectivo_def distancias_def get_lat_lon_def haversine_m_mismo
        fitness_punto_completo_def dist_min_a_camaras_def clamp_def)

section \<open>Coverage metrics\<close>

text \<open>
  C8. Over a non-empty grid the four level percentages add up to 100 (exactly, in real
  arithmetic) and \<open>cobertura_total\<close> is 100 minus \<open>sin_cobertura\<close>; over the empty grid
  every metric is 0 except \<open>sin_cobertura\<close>, which is 100.
\<close>

theorem metricas_suman_cien:
  "(pe \<noteq> [] \<longrightarrow>
      sin_cobertura (metricas_niveles_cobertura pe cams r)
        + nivel_1 (metricas_niveles_cobertura pe cams r)
        + nivel_2 (metricas_niveles_cobertura pe cams r)
        + nivel_3_mas (metricas_niveles_cobertura pe cams r) = 100
      \<and> cobertura_total (metricas_niveles_cobertura pe cams r)
          = 100 - sin_cobertura (metricas_niveles_cobertura pe cams r))
   \<and> metricas_niveles_cobertura [] cams r
       = \<lparr>cobertura_total = 0, sin_cobertura = 100, nivel_1 = 0, nivel_2 = 0, nivel_3_mas = 0\<rparr>"
proof (intro conjI impI)
  assume ne: "pe \<noteq> []"
  obtain d0 d1 d2 d3 where d: "contar_niveles pe cams r = (d0, d1, d2, d3)"
    by (metis prod_cases4)
  have s: "real_of_int d0 + real_of_int d1 + real_of_int d2 + real_of_int d3 = real (length pe)"
    using contar_niveles_suma[OF d] by (metis of_int_add of_int_of_nat_eq)
  have pos: "real (length pe) \<noteq> 0" using ne by simp
  have "real_of_int d0 / real (length pe) * 100 + real_of_int d1 / real (length pe) * 100
        + real_of_int d2 / real (length pe) * 100 + real_of_int d3 / real (length pe) * 100
        = (real_of_int d0 + real_of_int d1 + real_of_int d2 + real_of_int d3) / real (length pe) * 100"
    by (simp add: add_divide_distrib distrib_right)
  also have "\<dots> = 100" using s pos by simp
  finally show "sin_cobertura (metricas_niveles_cobertura pe cams r)
        + nivel_1 (metricas_niveles_cobertura pe cams r)
        + nivel_2 (metricas_niveles_cobertura pe cams r)
        + nivel_3_mas (metricas_niveles_cobertura pe cams r) = 100"
    using ne d by (simp add: metricas_niveles_cobertura_def Let_def)
  show "cobertura_total (metricas_niveles_cobertura pe cams r)
          = 100 - sin_cobertura (metricas_niveles_cobertura pe cams r)"
    using ne d by (simp add: metricas_niveles_cobertura_def Let_def)
next
  show "metricas_niveles_cobertura [] cams r
       = \<lparr>cobertura_total = 0, sin_cobertura = 100, nivel_1 = 0, nivel_2 = 0, nivel_3_mas = 0\<rparr>"
    by (simp add: metricas_niveles_cobertura_def)
qed

text \<open>A witness for C8: one grid point on top of the only camera.\<close>

theorem metricas_suman_cien_testigo:
  "[(0, 0)] \<noteq> ([] :: punto list)
   \<and> sin_cobertura (metricas_niveles_cobertura [(0, 0)] [(0, 0)] 120)
        + nivel_1 (metricas_niveles_cobertura [(0, 0)] [(0, 0)] 120)
        + nivel_2 (metricas_niveles_cobertura [(0, 0)] [(0, 0)] 120)
        + nivel_3_mas (metricas_niveles_cobertura [(0, 0)] [(0, 0)] 120) = 100
   \<and> nivel_1 (metricas_niveles_cobertura [(0, 0)] [(0, 0)] 120) = 100
   \<and> cobertura_total (metricas_niveles_cobertura [(0, 0)] [(0, 0)] 120) = 100"
  using metricas_suman_cien[of "[(0, 0)]" "[(0, 0)]" 120]
  by (simp add: metricas_niveles_cobertura_def contar_niveles_def contar_nivel_def
        contar_cobertura_en_punto_def haversine_m_mismo)

section \<open>Empty camera input\<close>

text \<open>
  C4. With no cameras both searches return at once, without raising and without drawing
  from the random source: the blind-spot search the empty list, the coverage search an
  empty camera list, fitness 0.0 and empty metrics.
\<close>

theorem entrada_vacia:
  "algoritmo_genetico_puntos_ciegos [] a g = Inr ([], g)
   \<and> algoritmo_genetico_mejorar_cobertura [] b g
       = Some (Inr (\<lparr>camaras_nuevas = [], fitness = 0, metricas = Map.empty\<rparr>, g))"
  by (simp add: algoritmo_genetico_puntos_ciegos_def algoritmo_genetico_mejorar_cobertura_def)

text \<open>
  C10. \<open>generar_grid_puntos\<close> on an empty camera sequence returns the empty list, for any
  step, margin factor and \<open>max_points\<close>, without raising and without looping.
\<close>

theorem grid_sin_camaras: "generar_grid_puntos [] step margin mp g = Some (Inr ([], g))"
  by (simp add: generar_grid_puntos_def)

section \<open>The diversity selector\<close>

lemma pasada_set: "set (espaciados_pasada cs ms cap sel) \<subseteq> set sel \<union> set cs"
  by (induction cs ms cap sel rule: espaciados_pasada.induct) auto

lemma pasada_tope:
  "int (length sel) \<le> max 0 cap \<Longrightarrow> int (length (espaciados_pasada cs ms cap sel)) \<le> max 0 cap"
  by (induction cs ms cap sel rule: espaciados_pasada.induct) auto

lemma pasada_distinct:
  "distinct sel \<Longrightarrow> distinct cs \<Longrightarrow> set sel \<inter> set cs = {}
     \<Longrightarrow> distinct (espaciados_pasada cs ms cap sel)"
  by (induction cs ms cap sel rule: espaciados_pasada.induct) auto

lemma relleno_set: "set (espaciados_relleno cs cap sel) \<subseteq> set sel \<union> set cs"
  by (induction cs cap sel rule: espaciados_relleno.induct) auto

lemma relleno_conserva: "set sel \<subseteq> set (espaciados_relleno cs cap sel)"
  by (induction cs cap sel rule: espaciados_relleno.induct) auto

lemma relleno_tope:
  "int (length sel) \<le> max 0 cap \<Longrightarrow> int (length (espaciados_relleno cs cap sel)) \<le> max 0 cap"
  by (induction cs cap sel rule: espaciados_relleno.induct) auto

lemma relleno_distinct:
  "distinct sel \<Longrightarrow> distinct (espaciados_relleno cs cap sel)"
  by (induction cs cap sel rule: espaciados_relleno.induct) auto

lemma relleno_completo:
  "int (length (espaciados_relleno cs cap sel)) < cap
     \<Longrightarrow> set cs \<subseteq> set (espaciados_relleno cs cap sel)"
proof (induction cs cap sel rule: espaciados_relleno.induct)
  case (1 cap sel)
  then show ?case by simp
next
  case (2 c resto cap sel)
  show ?case
  proof (cases "int (length sel) \<ge> cap")
    case True
    with "2.prems" show ?thesis by simp
  next
    case nt: False
    show ?thesis
    proof (cases "c \<in> set sel")
      case True
      then have "c \<in> set (espaciados_relleno resto cap sel)"
        using relleno_conserva[of sel resto cap] by auto
      moreover have "set resto \<subseteq> set (espaciados_relleno resto cap sel)"
        using "2.IH"(2) "2.prems" nt True by simp
      ultimately show ?thesis using nt True by simp
    next
      case False
      have "c \<in> set (espaciados_relleno resto cap (sel @ [c]))"
        using relleno_conserva[of "sel @ [c]" resto cap] by auto
      moreover have "set resto \<subseteq> set (espaciados_relleno resto cap (sel @ [c]))"
        using "2.IH"(1) "2.prems" nt False by simp
      ultimately show ?thesis using nt False by simp
    qed
  qed
qed

text \<open>
  C7, as stated, fails: the backfill skips a candidate that is already \<open>in seleccionados\<close>
  by value, so of two equal candidates only one is returned although the cap is 2.
\<close>

theorem espaciados_incompleto_contraejemplo:
  "length (seleccionar_espaciados [(0, 0, 0.5), (0, 0, 0.5)] 180 2) = 1
   \<and> min (2::int) (int (length [(0::real, 0::real, 0.5::real), (0, 0, 0.5)])) = 2"
  by (simp add: seleccionar_espaciados_def haversine_m_def haversine_a_def radians_def)

text \<open>
  C7, amended. The results are candidates and never more than the cap; when fewer than the
  cap are returned, every candidate value is among them; and for pairwise distinct
  candidates the number of results is exactly \<open>max(0, min(cap, total))\<close>.
\<close>

theorem seleccionar_espaciados_longitud:
  "set (seleccionar_espaciados cs ms cap) \<subseteq> set cs
   \<and> int (length (seleccionar_espaciados cs ms cap)) \<le> max 0 cap
   \<and> (int (length (seleccionar_espaciados cs ms cap)) < cap
        \<longrightarrow> set cs \<subseteq> set (seleccionar_espaciados cs ms cap))
   \<and> (distinct cs
        \<longrightarrow> int (length (seleccionar_espaciados cs ms cap)) = max 0 (min cap (int (length cs))))"
proof -
  define s1 where "s1 = espaciados_pasada cs ms cap []"
  define r where "r = seleccionar_espaciados cs ms cap"
  have r_def': "r = (if int (length s1) < cap then espaciados_relleno cs cap s1 else s1)"
    by (simp add: r_def s1_def seleccionar_espaciados_def Let_def)
  have s1_set: "set s1 \<subseteq> set cs" using pasada_set[of cs ms cap "[]"] by (simp add: s1_def)
  have s1_tope: "int (length s1) \<le> max 0 cap" using pasada_tope[of "[]" cap cs ms] by (simp add: s1_def)
  have a: "set r \<subseteq> set cs"
    using s1_set relleno_set[of cs cap s1] by (auto simp: r_def')
  have b: "int (length r) \<le> max 0 cap"
    using s1_tope relleno_tope[of s1 cap cs] by (auto simp: r_def')
  have c: "set cs \<subseteq> set r" if "int (length r) < cap"
    using that relleno_completo[of cs cap s1] by (auto simp: r_def' split: if_splits)
  have d: "int (length r) = max 0 (min cap (int (length cs)))" if dc: "distinct cs"
  proof -
    have "distinct s1" using pasada_distinct[of "[]" cs ms cap] dc by (simp add: s1_def)
    then have dr: "distinct r" using relleno_distinct[of s1 cs cap] by (simp add: r_def')
    have "card (set r) \<le> card (set cs)" using a by (simp add: card_mono)
    then have up: "length r \<le> length cs" using dr dc by (simp add: distinct_card)
    have low: "length cs \<le> length r" if "int (length r) < cap"
    proof -
      have "card (set cs) \<le> card (set r)" using c[OF that] by (simp add: card_mono)
      then show ?thesis using dr dc by (simp add: distinct_card)
    qed
    show ?thesis
    proof (cases "int (length r) < cap")
      case True
      with up low[OF True] b show ?thesis by (simp add: max_def min_def)
    next
      case False
      with up b show ?thesis by (simp add: max_def min_def split: if_splits)
    qed
  qed
  show ?thesis using a b c d unfolding r_def by blast
qed

text \<open>A witness for C7: two distinct candidates at the same place, both returned by the backfill.\<close>

theorem seleccionar_espaciados_longitud_testigo:
  "distinct [(0::real, 0::real, 0.9::real), (0, 0, 0.5)]
   \<and> seleccionar_espaciados [(0, 0, 0.9), (0, 0, 0.5)] 180 2 = [(0, 0, 0.9), (0, 0, 0.5)]
   \<and> int (length (seleccionar_espaciados [(0, 0, 0.9), (0, 0, 0.5)] 180 2)) = max 0 (min 2 2)"
  using seleccionar_espaciados_longitud[of "[(0, 0, 0.9), (0, 0, 0.5)]" 180 2]
  by (simp add: seleccionar_espaciados_def haversine_m_def haversine_a_def radians_def)

section \<open>Facts about the random source, selection and elitism\<close>

lemma randbelow_lt: "0 < n \<Longrightarrow> fst (randbelow n g) < n"
proof -
  assume n: "0 < n"
  have "frac (g 0) < 1" by (rule frac_lt_1)
  then have "frac (g 0) * real n < real n" using n by simp
  then have "\<lfloor>frac (g 0) * real n\<rfloor> < int n" by (simp add: floor_less_iff)
  moreover have "0 \<le> frac (g 0) * real n" by (simp add: frac_ge_0)
  ultimately show ?thesis by (simp add: randbelow_def nat_less_iff)
qed

lemma sample_loop_ok:
  "k \<le> length pool \<Longrightarrow>
     length (fst (sample_loop k pool res g)) = length res + k
     \<and> set (fst (sample_loop k pool res g)) \<subseteq> set res \<union> set pool"
proof (induction k arbitrary: pool res g)
  case 0
  then show ?case by simp
next
  case (Suc k)
  obtain j g' where r: "randbelow (length pool) g = (j, g')" by (cases "randbelow (length pool) g")
  have ne: "pool \<noteq> []" using Suc.prems by auto
  have j: "j < length pool" using randbelow_lt[of "length pool" g] r ne by simp
  define pool' where "pool' = butlast (pool[j := last pool])"
  have len: "k \<le> length pool'" using Suc.prems by (simp add: pool'_def)
  have sub: "set pool' \<subseteq> set pool"
  proof
    fix x assume "x \<in> set pool'"
    then have "x \<in> set (pool[j := last pool])" unfolding pool'_def by (rule in_set_butlastD)
    then have "x \<in> insert (last pool) (set pool)" using set_update_subset_insert by fast
    then show "x \<in> set pool" using ne by auto
  qed
  have pj: "pool ! j \<in> set pool" using j by simp
  from Suc.IH[OF len, of "res @ [pool ! j]" g'] sub pj r
  show ?case by (auto simp: pool'_def)
qed

lemma random_sample_ok:
  assumes "0 \<le> k" "k \<le> int (length xs)"
  shows "\<exists>r g'. random_sample xs k g = Inr (r, g') \<and> length r = nat k \<and> set r \<subseteq> set xs"
proof -
  have "nat k \<le> length xs" using assms by simp
  from sample_loop_ok[OF this, of "[]" g] assms show ?thesis
    by (cases "sample_loop (nat k) xs [] g") (simp add: random_sample_def)
qed

lemma random_choice_ok:
  "xs \<noteq> [] \<Longrightarrow> \<exists>x g'. random_choice xs g = Inr (x, g') \<and> x \<in> set xs"
  using randbelow_lt[of "length xs" g]
  by (cases "randbelow (length xs) g") (simp add: random_choice_def)

lemma foldl_max_key:
  fixes f :: "'a \<Rightarrow> real"
  shows "foldl (\<lambda>b y. if f b < f y then y else b) x xs \<in> set (x # xs)
   \<and> (\<forall>y \<in> set (x # xs). f y \<le> f (foldl (\<lambda>b y. if f b < f y then y else b) x xs))"
proof (induction xs arbitrary: x)
  case Nil
  then show ?case by simp
next
  case (Cons z zs)
  from Cons[of "if f x < f z then z else x"] show ?case by (auto split: if_splits)
qed

lemma py_max_key_ok:
  "xs \<noteq> [] \<Longrightarrow> \<exists>b. py_max_key f xs = Inr b \<and> b \<in> set xs \<and> (\<forall>y \<in> set xs. f y \<le> f b)"
  using foldl_max_key[of f] by (cases xs) auto

lemma torneo_bucle_ok:
  assumes "pob \<noteq> []" "1 \<le> k"
  shows "\<exists>sel g'. torneo_bucle m pob fits k acc g = Inr (sel, g')
           \<and> length sel = length acc + m \<and> set sel \<subseteq> set acc \<union> set pob"
proof (induction m arbitrary: acc g)
  case 0
  then show ?case by simp
next
  case (Suc m)
  let ?idxs = "[0..<length pob]"
  have k0: "0 \<le> min k (int (length ?idxs))" using assms by simp
  have k1: "min k (int (length ?idxs)) \<le> int (length ?idxs)" by simp
  obtain cont g1 where s: "random_sample ?idxs (min k (int (length ?idxs))) g = Inr (cont, g1)"
    and lc: "length cont = nat (min k (int (length ?idxs)))" and sc: "set cont \<subseteq> set ?idxs"
    using random_sample_ok[OF k0 k1, of g] by blast
  have "0 < length cont" using lc assms by (cases pob) auto
  then have "cont \<noteq> []" by auto
  then obtain best where b: "py_max_key (\<lambda>i. fits ! i) cont = Inr best" and bi: "best \<in> set cont"
    using py_max_key_ok[of cont "\<lambda>i. fits ! i"] by blast
  have "best < length pob" using bi sc by auto
  then have pb: "pob ! best \<in> set pob" by simp
  obtain sel g' where r: "torneo_bucle m pob fits k (acc @ [pob ! best]) g1 = Inr (sel, g')"
    and l: "length sel = length (acc @ [pob ! best]) + m"
    and ss: "set sel \<subseteq> set (acc @ [pob ! best]) \<union> set pob"
    using Suc[of "acc @ [pob ! best]" g1] by blast
  have "torneo_bucle (Suc m) pob fits k acc g = Inr (sel, g')"
    using s b r by (simp del: upt_Suc)
  with l ss pb show ?case by auto
qed

lemma seleccion_torneo_ok:
  assumes "pob \<noteq> []" "1 \<le> k"
  shows "\<exists>padres g'. seleccion_torneo pob fits k (Some n) g = Inr (padres, g')
           \<and> length padres = nat n \<and> set padres \<subseteq> set pob"
  using torneo_bucle_ok[OF assms, of "nat n" fits "[]" g] by (simp add: seleccion_torneo_def)

lemma seleccion_torneo_cero:
  "n \<le> 0 \<Longrightarrow> seleccion_torneo pob fits k (Some n) g = Inr ([], g)"
  by (simp add: seleccion_torneo_def)

lemma orden_de_set: "set (orden_de fits n) = {0..<n}"
  by (simp add: orden_de_def py_sorted_desc_def)

lemma orden_de_length: "length (orden_de fits n) = n"
  by (simp add: orden_de_def py_sorted_desc_def)

lemma orden_de_hd:
  assumes "0 < n" "i < n"
  shows "fits ! i \<le> fits ! (hd (orden_de fits n))"
proof -
  let ?o = "orden_de fits n"
  have ne: "?o \<noteq> []" using assms orden_de_length[of fits n] by auto
  have srt: "sorted (map (\<lambda>i. - (fits ! i)) ?o)"
    by (simp add: orden_de_def py_sorted_desc_def)
  have "i \<in> set ?o" using assms by (simp add: orden_de_set)
  then have "- (fits ! i) \<in> set (map (\<lambda>i. - (fits ! i)) ?o)" by auto
  moreover have "map (\<lambda>i. - (fits ! i)) ?o = - (fits ! hd ?o) # map (\<lambda>i. - (fits ! i)) (tl ?o)"
    using ne by (cases ?o) auto
  ultimately have "- (fits ! hd ?o) \<le> - (fits ! i)"
    using srt by (metis order_refl set_ConsD sorted_simps(2))
  then show ?thesis by simp
qed

lemma elites_de_take:
  "elites_de pob fits e = map (\<lambda>i. pob ! i) (take (nat (max 1 e)) (orden_de fits (length pob)))"
  by (simp add: elites_de_def py_slice_hasta_def Let_def)

lemma elites_de_subset: "set (elites_de pob fits e) \<subseteq> set pob"
proof -
  have "set (take (nat (max 1 e)) (orden_de fits (length pob))) \<subseteq> {0..<length pob}"
    using set_take_subset[of "nat (max 1 e)" "orden_de fits (length pob)"] orden_de_set by fast
  then show ?thesis unfolding elites_de_take by auto
qed

lemma elites_de_length:
  "length (elites_de pob fits e) = min (nat (max 1 e)) (length pob)"
  by (simp add: elites_de_take orden_de_length)

lemma elites_de_mejor:
  assumes "pob \<noteq> []"
  shows "\<exists>i < length pob. pob ! i \<in> set (elites_de pob fits e) \<and> (\<forall>j < length pob. fits ! j \<le> fits ! i)"
proof -
  let ?o = "orden_de fits (length pob)"
  have n: "0 < length pob" using assms by simp
  have ne: "?o \<noteq> []" using n orden_de_length[of fits "length pob"] by auto
  have "hd ?o \<in> set ?o" using ne by simp
  then have h: "hd ?o < length pob" by (simp add: orden_de_set)
  have "hd ?o \<in> set (take (nat (max 1 e)) ?o)"
    using ne by (cases ?o) (auto simp: take_Cons' nat_le_iff split: if_splits)
  then have "pob ! hd ?o \<in> set (elites_de pob fits e)" unfolding elites_de_take by simp
  moreover have "\<forall>j < length pob. fits ! j \<le> fits ! hd ?o" using orden_de_hd[OF n] by simp
  ultimately show ?thesis using h by blast
qed

section \<open>Facts about the loop of the blind-spot search\<close>

lemma py_collect_map:
  "\<forall>x \<in> set xs. \<exists>v. f x = Inr v \<Longrightarrow> py_collect (map f xs) = Inr (map (\<lambda>x. projr (f x)) xs)"
  by (induction xs) auto

lemma fitness_ciegos_ok: "\<exists>v. fitness_ciegos args camaras ind = Inr v"
  using fitness_punto_completo_range unfolding fitness_ciegos_def by blast

lemma evaluar_ciegos_eq:
  "evaluar_ciegos args camaras pob = Inr (map (\<lambda>x. projr (fitness_ciegos args camaras x)) pob)"
  unfolding evaluar_ciegos_def using fitness_ciegos_ok by (intro py_collect_map) blast

lemma elite_paso:
  fixes F :: "'a \<Rightarrow> real"
  assumes "pob \<noteq> []" "set (elites_de pob (map F pob) e) \<subseteq> set pob'"
  shows "Max (set (map F pob)) \<le> Max (set (map F (elites_de pob' (map F pob') e')))"
proof -
  obtain i where i: "i < length pob" and ie: "pob ! i \<in> set (elites_de pob (map F pob) e)"
    and im: "\<forall>j < length pob. map F pob ! j \<le> map F pob ! i"
    using elites_de_mejor[OF assms(1)] by blast
  have M: "Max (set (map F pob)) = F (pob ! i)"
  proof (rule Max_eqI)
    show "finite (set (map F pob))" by simp
    show "\<And>y. y \<in> set (map F pob) \<Longrightarrow> y \<le> F (pob ! i)"
      using im i by (auto simp: in_set_conv_nth)
    show "F (pob ! i) \<in> set (map F pob)" using i by auto
  qed
  have "pob ! i \<in> set pob'" using ie assms(2) by auto
  then obtain j where j: "j < length pob'" and pj: "pob' ! j = pob ! i"
    by (auto simp: in_set_conv_nth)
  then have ne': "pob' \<noteq> []" by auto
  obtain i' where i': "i' < length pob'"
    and ie': "pob' ! i' \<in> set (elites_de pob' (map F pob') e')"
    and im': "\<forall>j < length pob'. map F pob' ! j \<le> map F pob' ! i'"
    using elites_de_mejor[OF ne'] by blast
  have "F (pob ! i) \<le> F (pob' ! i')" using im' j i' pj by (metis nth_map)
  also have "\<dots> \<le> Max (set (map F (elites_de pob' (map F pob') e')))"
    using ie' by (intro Max_ge) auto
  finally show ?thesis using M by simp
qed

lemma reproducir_ciegos_ok:
  "padres \<noteq> [] \<or> args_puntos_ciegos.tam_poblacion args \<le> int (length nueva) \<Longrightarrow>
     \<exists>hijos g'. reproducir_ciegos args a b c d padres nueva g = Inr (nueva @ hijos, g')"
proof (induction args a b c d padres nueva g rule: reproducir_ciegos.induct)
  case (1 args a b c d padres nueva g)
  show ?case
  proof (cases "int (length nueva) < args_puntos_ciegos.tam_poblacion args")
    case False
    then show ?thesis by (subst reproducir_ciegos.simps) simp
  next
    case True
    then have ne: "padres \<noteq> []" using "1.prems" by auto
    obtain p1 g1 where c1: "random_choice padres g = Inr (p1, g1)"
      using random_choice_ok[OF ne] by blast
    obtain p2 g2 where c2: "random_choice padres g1 = Inr (p2, g2)"
      using random_choice_ok[OF ne] by blast
    obtain hijo g3 where c3: "cruzar_blx_alpha p1 p2 (args_puntos_ciegos.alpha_blx args) g2 = (hijo, g3)"
      by (cases "cruzar_blx_alpha p1 p2 (args_puntos_ciegos.alpha_blx args) g2")
    obtain hijo' g4 where c4: "mutar_gauss hijo a b c d 0.0007 0.0007 0.25 g3 = (hijo', g4)"
      by (cases "mutar_gauss hijo a b c d 0.0007 0.0007 0.25 g3")
    have "\<exists>hijos g'. reproducir_ciegos args a b c d padres (nueva @ [hijo']) g4
            = Inr ((nueva @ [hijo']) @ hijos, g')"
      using "1.IH"[OF True c1 refl c2 refl c3[symmetric] c4[symmetric]] ne by simp
    then obtain hijos g' where
      r: "reproducir_ciegos args a b c d padres (nueva @ [hijo']) g4 = Inr ((nueva @ [hijo']) @ hijos, g')"
      by blast
    have "reproducir_ciegos args a b c d padres nueva g = Inr (nueva @ ([hijo'] @ hijos), g')"
      using True c1 c2 c3 c4 r by (subst reproducir_ciegos.simps) simp
    then show ?thesis by blast
  qed
qed

lemma generacion_ciegos_ok:
  assumes "pob \<noteq> []" "1 \<le> args_puntos_ciegos.k_torneo args"
  shows "\<exists>hijos g'. generacion_ciegos args camaras a b c d pob g
           = Inr (elites_de pob (map (\<lambda>x. projr (fitness_ciegos args camaras x)) pob)
                     (args_puntos_ciegos.elitismo args) @ hijos, g')"
proof -
  let ?fits = "map (\<lambda>x. projr (fitness_ciegos args camaras x)) pob"
  let ?el = "elites_de pob ?fits (args_puntos_ciegos.elitismo args)"
  obtain padres g1 where
    t: "seleccion_torneo pob ?fits (args_puntos_ciegos.k_torneo args)
          (Some (args_puntos_ciegos.tam_poblacion args)) g = Inr (padres, g1)"
    and lp: "length padres = nat (args_puntos_ciegos.tam_poblacion args)"
    using seleccion_torneo_ok[OF assms] by blast
  have "padres \<noteq> [] \<or> args_puntos_ciegos.tam_poblacion args \<le> int (length ?el)"
    using lp by (cases "args_puntos_ciegos.tam_poblacion args \<le> 0") auto
  then obtain hijos g' where "reproducir_ciegos args a b c d padres ?el g1 = Inr (?el @ hijos, g')"
    using reproducir_ciegos_ok by blast
  then have "generacion_ciegos args camaras a b c d pob g = Inr (?el @ hijos, g')"
    using t by (simp add: generacion_ciegos_def evaluar_ciegos_eq)
  then show ?thesis by blast
qed

lemma elites_de_no_vacio: "pob \<noteq> [] \<Longrightarrow> elites_de pob fits e \<noteq> []"
  using elites_de_length[of pob fits e] by (cases pob) (auto simp: min_def split: if_splits)

lemma bucle_ciegos_Suc:
  "bucle_ciegos (Suc m) args camaras a b c d pob g =
     (case bucle_ciegos m args camaras a b c d pob g of
        Inl e \<Rightarrow> Inl e
      | Inr (p, g1) \<Rightarrow> generacion_ciegos args camaras a b c d p g1)"
proof (induction m arbitrary: pob g)
  case 0
  then show ?case by (simp split: sum.splits)
next
  case (Suc m)
  show ?case
  proof (cases "generacion_ciegos args camaras a b c d pob g")
    case (Inl e)
    then show ?thesis by simp
  next
    case (Inr r)
    obtain p1 g1 where r: "r = (p1, g1)" by (cases r)
    have "bucle_ciegos (Suc (Suc m)) args camaras a b c d pob g
            = bucle_ciegos (Suc m) args camaras a b c d p1 g1"
      using Inr r by simp
    also have "\<dots> = (case bucle_ciegos m args camaras a b c d p1 g1 of
        Inl e \<Rightarrow> Inl e
      | Inr (p, g1) \<Rightarrow> generacion_ciegos args camaras a b c d p g1)"
      by (rule Suc)
    also have "bucle_ciegos m args camaras a b c d p1 g1
                 = bucle_ciegos (Suc m) args camaras a b c d pob g"
      using Inr r by simp
    finally show ?thesis .
  qed
qed

lemma bucle_ciegos_ok:
  assumes "pob \<noteq> []" "1 \<le> args_puntos_ciegos.k_torneo args"
  shows "\<exists>p g'. bucle_ciegos m args camaras a b c d pob g = Inr (p, g') \<and> p \<noteq> []"
proof (induction m)
  case 0
  then show ?case using assms by simp
next
  case (Suc m)
  then obtain p g1 where b: "bucle_ciegos m args camaras a b c d pob g = Inr (p, g1)" and ne: "p \<noteq> []"
    by blast
  obtain hijos g' where "generacion_ciegos args camaras a b c d p g1
           = Inr (elites_de p (map (\<lambda>x. projr (fitness_ciegos args camaras x)) p)
                     (args_puntos_ciegos.elitismo args) @ hijos, g')"
    using generacion_ciegos_ok[OF ne assms(2)] by blast
  then show ?case using b elites_de_no_vacio[OF ne] by (subst bucle_ciegos_Suc) simp
qed

lemma elitismo_ciegos:
  assumes "pob \<noteq> []" "1 \<le> args_puntos_ciegos.k_torneo args"
  shows "\<exists>p g1 p' g2 fs fs' els.
           bucle_ciegos m args camaras a b c d pob g = Inr (p, g1)
         \<and> bucle_ciegos (Suc m) args camaras a b c d pob g = Inr (p', g2)
         \<and> evaluar_ciegos args camaras p = Inr fs
         \<and> evaluar_ciegos args camaras p' = Inr fs'
         \<and> evaluar_ciegos args camaras (elites_de p' fs' (args_puntos_ciegos.elitismo args)) = Inr els
         \<and> fs \<noteq> [] \<and> els \<noteq> []
         \<and> Max (set fs) \<le> Max (set els)"
proof -
  let ?F = "\<lambda>x. projr (fitness_ciegos args camaras x)"
  let ?e = "args_puntos_ciegos.elitismo args"
  obtain p g1 where b: "bucle_ciegos m args camaras a b c d pob g = Inr (p, g1)" and ne: "p \<noteq> []"
    using bucle_ciegos_ok[OF assms] by blast
  obtain hijos g2 where gen: "generacion_ciegos args camaras a b c d p g1
           = Inr (elites_de p (map ?F p) ?e @ hijos, g2)"
    using generacion_ciegos_ok[OF ne assms(2)] by blast
  define p' where "p' = elites_de p (map ?F p) ?e @ hijos"
  have b': "bucle_ciegos (Suc m) args camaras a b c d pob g = Inr (p', g2)"
    using b gen by (subst bucle_ciegos_Suc) (simp add: p'_def)
  have sub: "set (elites_de p (map ?F p) ?e) \<subseteq> set p'" by (auto simp: p'_def)
  have ne': "p' \<noteq> []" using elites_de_no_vacio[OF ne] by (simp add: p'_def)
  have "Max (set (map ?F p)) \<le> Max (set (map ?F (elites_de p' (map ?F p') ?e)))"
    using elite_paso[OF ne sub] .
  moreover have "map ?F p \<noteq> []" using ne by simp
  moreover have "map ?F (elites_de p' (map ?F p') ?e) \<noteq> []"
    using elites_de_no_vacio[OF ne'] by simp
  ultimately show ?thesis using b b' evaluar_ciegos_eq by blast
qed

lemma generacion_ciegos_vacia:
  "args_puntos_ciegos.tam_poblacion args \<le> 0 \<Longrightarrow>
     generacion_ciegos args camaras a b c d [] g = Inr ([], g)"
  by (simp add: generacion_ciegos_def evaluar_ciegos_def seleccion_torneo_cero elites_de_take
        orden_de_def py_sorted_desc_def)

lemma bucle_ciegos_vacia:
  "args_puntos_ciegos.tam_poblacion args \<le> 0 \<Longrightarrow>
     bucle_ciegos m args camaras a b c d [] g = Inr ([], g)"
  by (induction m) (simp_all add: generacion_ciegos_vacia)

lemma puntos_ciegos_sin_poblacion:
  assumes "camaras \<noteq> []" "args_puntos_ciegos.tam_poblacion args \<le> 0"
  shows "algoritmo_genetico_puntos_ciegos camaras args g = Inr ([], g)"
proof -
  obtain a1 a2 a3 a4 where "bbox camaras = Inr (a1, a2, a3, a4)"
    using bbox_ok[OF assms(1)] by blast
  then show ?thesis
    using assms
    by (simp add: algoritmo_genetico_puntos_ciegos_def Let_def bucle_ciegos_vacia
          evaluar_ciegos_def py_sorted_desc_def seleccionar_espaciados_def)
qed

section \<open>Facts about the loop of the coverage search\<close>

lemma completar_individuo_length:
  "length (fst (completar_individuo n a b c d ind g)) = max (length ind) (nat n)"
proof (induction n a b c d ind g rule: completar_individuo.induct)
  case (1 n a b c d ind g)
  show ?case
  proof (cases "int (length ind) < n")
    case False
    then show ?thesis by (subst completar_individuo.simps) auto
  next
    case True
    obtain p g1 where p: "punto_aleatorio a b c d g = (p, g1)" by (cases "punto_aleatorio a b c d g")
    have "length (fst (completar_individuo n a b c d (ind @ [p]) g1)) = max (length (ind @ [p])) (nat n)"
      using "1.IH"[OF True p[symmetric]] .
    then show ?thesis using True p by (subst completar_individuo.simps) auto
  qed
qed

lemma repair_existentes_length:
  "length (fst (repair_existentes ind ce a b c d md ch g)) = length ind"
  by (induction ind ce a b c d md ch g rule: repair_existentes.induct)
     (auto split: prod.splits)

lemma repair_par_length: "length (fst (repair_par a b c d md i j st)) = length (fst st)"
  by (cases st) (auto simp: repair_par_def Let_def split: prod.splits)

lemma foldl_length_inv:
  "(\<And>s x. length (fst (f s x)) = length (fst s)) \<Longrightarrow> length (fst (foldl f st xs)) = length (fst st)"
  by (induction xs arbitrary: st) auto

lemma repair_nuevas_length: "length (fst (repair_nuevas a b c d md st)) = length (fst st)"
  unfolding repair_nuevas_def Let_def
  by (rule foldl_length_inv, rule foldl_length_inv, rule repair_par_length)

lemma repair_iter_length:
  "length (fst (repair_iter m ce a b c d md1 md2 out g)) = length out"
proof (induction m arbitrary: out g)
  case 0
  then show ?case by simp
next
  case (Suc m)
  define st1 where "st1 = (if md2 > 0 then repair_existentes out ce a b c d md2 False g
                           else (out, False, g))"
  have l1: "length (fst st1) = length out" by (simp add: st1_def repair_existentes_length)
  obtain out2 ch g2 where r: "repair_nuevas a b c d md1 st1 = (out2, ch, g2)"
    by (cases "repair_nuevas a b c d md1 st1")
  have l2: "length out2 = length out" using repair_nuevas_length[of a b c d md1 st1] r l1 by simp
  show ?case using Suc[of out2 g2] r l2 unfolding st1_def by (simp add: Let_def)
qed

lemma clamp_puntos_length: "length (clamp_puntos ps a b c d) = length ps"
  by (simp add: clamp_puntos_def)

lemma repair_separacion_length:
  "length (fst (repair_separacion ind ce a b c d md1 md2 mi g)) = length ind"
  using repair_iter_length[of "nat mi" ce a b c d md1 md2 ind g]
  by (cases "repair_iter (nat mi) ce a b c d md1 md2 ind g")
     (simp add: repair_separacion_def clamp_puntos_length)

lemma cruzar_individuo_blx_length:
  "length (fst (cruzar_individuo_blx p1 p2 al g)) = min (length p1) (length p2)"
  by (induction p1 p2 al g rule: cruzar_individuo_blx.induct) (auto split: prod.splits)

lemma mutar_individuo_gauss_length:
  "length (fst (mutar_individuo_gauss ind a b c d pm s1 s2 g)) = length ind"
  by (induction ind a b c d pm s1 s2 g rule: mutar_individuo_gauss.induct) (auto split: prod.splits)

lemma crear_individuo_ok:
  assumes "0 \<le> n_camaras_nuevas args \<or> semillas = []"
  shows "\<exists>ind g'. crear_individuo args ce semillas a b c d g = Inr (ind, g')
           \<and> length ind = nat (n_camaras_nuevas args)"
proof -
  define ini where "ini = (if semillas \<noteq> []
            then (case random_random g of (u, g1) \<Rightarrow>
                    if u < prob_usar_semilla args
                    then (let tomar = min (int (length semillas)) (n_camaras_nuevas args)
                          in random_sample semillas tomar g1)
                    else Inr ([], g1))
            else Inr ([], g))"
  have "\<exists>i0 g2. ini = Inr (i0, g2) \<and> length i0 \<le> nat (n_camaras_nuevas args)"
  proof (cases "semillas = []")
    case True
    then show ?thesis by (simp add: ini_def)
  next
    case False
    then have n0: "0 \<le> n_camaras_nuevas args" using assms by simp
    obtain u g1 where u: "random_random g = (u, g1)" by (cases "random_random g")
    show ?thesis
    proof (cases "u < prob_usar_semilla args")
      case True
      have k0: "0 \<le> min (int (length semillas)) (n_camaras_nuevas args)" using n0 by simp
      have k1: "min (int (length semillas)) (n_camaras_nuevas args) \<le> int (length semillas)" by simp
      obtain r g2 where "random_sample semillas (min (int (length semillas)) (n_camaras_nuevas args)) g1
                           = Inr (r, g2)"
        and "length r = nat (min (int (length semillas)) (n_camaras_nuevas args))"
        using random_sample_ok[OF k0 k1] by blast
      then show ?thesis using False u True by (simp add: ini_def Let_def)
    next
      case nu: False
      then show ?thesis using False u by (simp add: ini_def)
    qed
  qed
  then obtain i0 g2 where i: "ini = Inr (i0, g2)" and li: "length i0 \<le> nat (n_camaras_nuevas args)"
    by blast
  obtain i1 g3 where c: "completar_individuo (n_camaras_nuevas args) a b c d i0 g2 = (i1, g3)"
    by (cases "completar_individuo (n_camaras_nuevas args) a b c d i0 g2")
  have l1: "length i1 = nat (n_camaras_nuevas args)"
    using completar_individuo_length[of "n_camaras_nuevas args" a b c d i0 g2] c li by simp
  obtain i2 g4 where rp: "repair_separacion (clamp_puntos i1 a b c d) ce a b c d
             (min_dist_entre_nuevas_m args) (min_dist_a_existentes_m args) 35 g3 = (i2, g4)"
    by (cases "repair_separacion (clamp_puntos i1 a b c d) ce a b c d
             (min_dist_entre_nuevas_m args) (min_dist_a_existentes_m args) 35 g3")
  have l2: "length i2 = nat (n_camaras_nuevas args)"
    using repair_separacion_length[of "clamp_puntos i1 a b c d" ce a b c d
             "min_dist_entre_nuevas_m args" "min_dist_a_existentes_m args" 35 g3] rp l1
    by (simp add: clamp_puntos_length)
  show ?thesis
    using i[unfolded ini_def] c rp l1 l2
    by (simp add: crear_individuo_def Let_def clamp_puntos_length)
qed

lemma crear_poblacion_ok:
  assumes "0 \<le> n_camaras_nuevas args \<or> semillas = []"
  shows "\<exists>pob g'. crear_poblacion m args ce semillas a b c d g = Inr (pob, g')
           \<and> length pob = m \<and> (\<forall>ind \<in> set pob. length ind = nat (n_camaras_nuevas args))"
proof (induction m arbitrary: g)
  case 0
  then show ?case by simp
next
  case (Suc m)
  obtain ind g1 where i: "crear_individuo args ce semillas a b c d g = Inr (ind, g1)"
    and li: "length ind = nat (n_camaras_nuevas args)"
    using crear_individuo_ok[OF assms] by blast
  obtain pob g2 where p: "crear_poblacion m args ce semillas a b c d g1 = Inr (pob, g2)"
    and lp: "length pob = m" and al: "\<forall>ind \<in> set pob. length ind = nat (n_camaras_nuevas args)"
    using Suc[of g1] by blast
  show ?case using i li p lp al by simp
qed

lemma reproducir_cobertura_ok:
  "padres \<noteq> [] \<or> tam_poblacion args \<le> int (length nueva) \<Longrightarrow>
     \<exists>hijos g'. reproducir_cobertura args ce a b c d padres nueva g = Inr (nueva @ hijos, g')
        \<and> ((\<forall>p \<in> set padres. length p = L) \<longrightarrow> (\<forall>h \<in> set hijos. length h = L))"
proof (induction args ce a b c d padres nueva g rule: reproducir_cobertura.induct)
  case (1 args ce a b c d padres nueva g)
  show ?case
  proof (cases "int (length nueva) < tam_poblacion args")
    case False
    then show ?thesis by (subst reproducir_cobertura.simps) simp
  next
    case True
    then have ne: "padres \<noteq> []" using "1.prems" by auto
    obtain p1 g1 where c1: "random_choice padres g = Inr (p1, g1)" and m1: "p1 \<in> set padres"
      using random_choice_ok[OF ne] by blast
    obtain p2 g2 where c2: "random_choice padres g1 = Inr (p2, g2)" and m2: "p2 \<in> set padres"
      using random_choice_ok[OF ne] by blast
    obtain h3 g3 where c3: "cruzar_individuo_blx p1 p2 (alpha_blx args) g2 = (h3, g3)"
      by (cases "cruzar_individuo_blx p1 p2 (alpha_blx args) g2")
    obtain h4 g4 where c4: "mutar_individuo_gauss h3 a b c d 0.35 0.0007 0.0007 g3 = (h4, g4)"
      by (cases "mutar_individuo_gauss h3 a b c d 0.35 0.0007 0.0007 g3")
    define h5 where "h5 = clamp_puntos h4 a b c d"
    obtain h6 g6 where c6: "(if penalizar_cercania args
                        then repair_separacion h5 ce a b c d
                               (min_dist_entre_nuevas_m args) (min_dist_a_existentes_m args) 35 g4
                        else (h5, g4)) = (h6, g6)"
      by (cases "(if penalizar_cercania args
                        then repair_separacion h5 ce a b c d
                               (min_dist_entre_nuevas_m args) (min_dist_a_existentes_m args) 35 g4
                        else (h5, g4))")
    have l3: "length h3 = min (length p1) (length p2)"
      using cruzar_individuo_blx_length[of p1 p2 "alpha_blx args" g2] c3 by simp
    have l4: "length h4 = length h3"
      using mutar_individuo_gauss_length[of h3 a b c d "0.35" "0.0007" "0.0007" g3] c4 by simp
    have l6: "length h6 = length h4"
      using c6 repair_separacion_length[of h5 ce a b c d
              "min_dist_entre_nuevas_m args" "min_dist_a_existentes_m args" 35 g4]
      by (auto simp: h5_def clamp_puntos_length split: if_splits)
    have lh: "(\<forall>p \<in> set padres. length p = L) \<longrightarrow> length h6 = L"
      using l3 l4 l6 m1 m2 by auto
    have "\<exists>hijos g'. reproducir_cobertura args ce a b c d padres (nueva @ [h6]) g6
              = Inr ((nueva @ [h6]) @ hijos, g')
            \<and> ((\<forall>p \<in> set padres. length p = L) \<longrightarrow> (\<forall>h \<in> set hijos. length h = L))"
      using "1.IH"[OF True c1 refl c2 refl c3[symmetric] c4[symmetric] h5_def c6[symmetric]]
        ne by simp
    then obtain hijos g' where
      r: "reproducir_cobertura args ce a b c d padres (nueva @ [h6]) g6 = Inr ((nueva @ [h6]) @ hijos, g')"
      and rl: "(\<forall>p \<in> set padres. length p = L) \<longrightarrow> (\<forall>h \<in> set hijos. length h = L)"
      by blast
    have "reproducir_cobertura args ce a b c d padres nueva g = Inr (nueva @ ([h6] @ hijos), g')"
      using True c1 c2 c3 c4 c6 r unfolding h5_def
      by (subst reproducir_cobertura.simps) (simp add: Let_def)
    moreover have "(\<forall>p \<in> set padres. length p = L) \<longrightarrow> (\<forall>h \<in> set ([h6] @ hijos). length h = L)"
      using lh rl by auto
    ultimately show ?thesis by blast
  qed
qed

lemma fitness_ind_range: "0 \<le> fitness_ind args puntos ce ind \<and> fitness_ind args puntos ce ind \<le> 100"
  unfolding fitness_ind_def using clamp_range[of 0 100] by simp

lemma Max_nth_eq:
  fixes fits :: "real list"
  assumes "i < length fits" "\<forall>j < length fits. fits ! j \<le> fits ! i"
  shows "Max (set fits) = fits ! i"
proof (rule Max_eqI)
  show "finite (set fits)" by simp
  show "\<And>y. y \<in> set fits \<Longrightarrow> y \<le> fits ! i" using assms by (auto simp: in_set_conv_nth)
  show "fits ! i \<in> set fits" using assms by simp
qed

lemma generacion_cobertura_ok:
  assumes "poblacion st \<noteq> []" "1 \<le> k_torneo args"
  shows "\<exists>st' g' hijos i.
           generacion_cobertura args puntos ce a b c d st g = Inr (st', g')
         \<and> poblacion st' = elites_de (poblacion st)
                              (evaluar_cobertura args puntos ce (poblacion st)) (elitismo args) @ hijos
         \<and> ((\<forall>p \<in> set (poblacion st). length p = L) \<longrightarrow> (\<forall>h \<in> set hijos. length h = L))
         \<and> best_fit st' = max (best_fit st) (Max (set (evaluar_cobertura args puntos ce (poblacion st))))
         \<and> i < length (poblacion st)
         \<and> best_ind st' = (if best_fit st < Max (set (evaluar_cobertura args puntos ce (poblacion st)))
                            then poblacion st ! i else best_ind st)"
proof -
  let ?pob = "poblacion st"
  let ?fits = "evaluar_cobertura args puntos ce ?pob"
  let ?el = "elites_de ?pob ?fits (elitismo args)"
  have lf: "length ?fits = length ?pob" by (simp add: evaluar_cobertura_def)
  have "[0..<length ?pob] \<noteq> []" using assms(1) by simp
  then obtain i where ib: "py_max_key (\<lambda>i. ?fits ! i) [0..<length ?pob] = Inr i"
    and ii: "i \<in> set [0..<length ?pob]"
    and im: "\<forall>j \<in> set [0..<length ?pob]. ?fits ! j \<le> ?fits ! i"
    using py_max_key_ok[of "[0..<length ?pob]" "\<lambda>i. ?fits ! i"] by blast
  have il: "i < length ?pob" using ii by simp
  have M: "Max (set ?fits) = ?fits ! i"
    using Max_nth_eq[of i ?fits] il im lf by simp
  obtain padres g1 where
    t: "seleccion_torneo ?pob ?fits (k_torneo args) (Some (tam_poblacion args)) g = Inr (padres, g1)"
    and lp: "length padres = nat (tam_poblacion args)" and sp: "set padres \<subseteq> set ?pob"
    using seleccion_torneo_ok[OF assms] by blast
  have "padres \<noteq> [] \<or> tam_poblacion args \<le> int (length ?el)"
    using lp by (cases "tam_poblacion args \<le> 0") auto
  then obtain hijos g2 where r: "reproducir_cobertura args ce a b c d padres ?el g1 = Inr (?el @ hijos, g2)"
    and rl: "(\<forall>p \<in> set padres. length p = L) \<longrightarrow> (\<forall>h \<in> set hijos. length h = L)"
    using reproducir_cobertura_ok[of padres args ?el ce a b c d g1 L] by blast
  define st' where "st' = \<lparr>poblacion = ?el @ hijos,
      best_ind = (if ?fits ! i > best_fit st then ?pob ! i else best_ind st),
      best_fit = (if ?fits ! i > best_fit st then ?fits ! i else best_fit st)\<rparr>"
  have g: "generacion_cobertura args puntos ce a b c d st g = Inr (st', g2)"
    using ib t r by (simp add: generacion_cobertura_def Let_def st'_def del: upt_Suc)
  have "(\<forall>p \<in> set ?pob. length p = L) \<longrightarrow> (\<forall>h \<in> set hijos. length h = L)"
    using rl sp by auto
  moreover have "best_fit st' = max (best_fit st) (Max (set ?fits))"
    by (simp add: st'_def M max_def)
  moreover have "best_ind st' = (if best_fit st < Max (set ?fits) then ?pob ! i else best_ind st)"
    by (simp add: st'_def M)
  moreover have "poblacion st' = ?el @ hijos" by (simp add: st'_def)
  ultimately show ?thesis using g il by blast
qed

lemma bucle_cobertura_Suc:
  "bucle_cobertura (Suc m) args puntos ce a b c d st g =
     (case bucle_cobertura m args puntos ce a b c d st g of
        Inl e \<Rightarrow> Inl e
      | Inr (s, g1) \<Rightarrow> generacion_cobertura args puntos ce a b c d s g1)"
proof (induction m arbitrary: st g)
  case 0
  then show ?case by (simp split: sum.splits)
next
  case (Suc m)
  show ?case
  proof (cases "generacion_cobertura args puntos ce a b c d st g")
    case (Inl e)
    then show ?thesis by simp
  next
    case (Inr r)
    obtain s1 g1 where r: "r = (s1, g1)" by (cases r)
    have "bucle_cobertura (Suc (Suc m)) args puntos ce a b c d st g
            = bucle_cobertura (Suc m) args puntos ce a b c d s1 g1"
      using Inr r by simp
    also have "\<dots> = (case bucle_cobertura m args puntos ce a b c d s1 g1 of
        Inl e \<Rightarrow> Inl e
      | Inr (s, g1) \<Rightarrow> generacion_cobertura args puntos ce a b c d s g1)"
      by (rule Suc)
    also have "bucle_cobertura m args puntos ce a b c d s1 g1
                 = bucle_cobertura (Suc m) args puntos ce a b c d st g"
      using Inr r by simp
    finally show ?thesis .
  qed
qed

lemma bucle_cobertura_ok:
  assumes "poblacion st \<noteq> []" "1 \<le> k_torneo args"
  shows "\<exists>s g'. bucle_cobertura m args puntos ce a b c d st g = Inr (s, g')
           \<and> poblacion s \<noteq> []
           \<and> ((\<forall>p \<in> set (poblacion st). length p = L) \<longrightarrow> (\<forall>p \<in> set (poblacion s). length p = L))"
proof (induction m)
  case 0
  then show ?case using assms by simp
next
  case (Suc m)
  then obtain s g1 where b: "bucle_cobertura m args puntos ce a b c d st g = Inr (s, g1)"
    and ne: "poblacion s \<noteq> []"
    and ll: "(\<forall>p \<in> set (poblacion st). length p = L) \<longrightarrow> (\<forall>p \<in> set (poblacion s). length p = L)"
    by blast
  let ?el = "elites_de (poblacion s) (evaluar_cobertura args puntos ce (poblacion s)) (elitismo args)"
  obtain s' g' hijos where gen: "generacion_cobertura args puntos ce a b c d s g1 = Inr (s', g')"
    and ps: "poblacion s' = ?el @ hijos"
    and hl: "(\<forall>p \<in> set (poblacion s). length p = L) \<longrightarrow> (\<forall>h \<in> set hijos. length h = L)"
    using generacion_cobertura_ok[OF ne assms(2), of puntos ce a b c d g1 L] by blast
  have "poblacion s' \<noteq> []" using ps elites_de_no_vacio[OF ne] by simp
  moreover have "(\<forall>p \<in> set (poblacion st). length p = L) \<longrightarrow> (\<forall>p \<in> set (poblacion s'). length p = L)"
    using ll hl ps
      elites_de_subset[of "poblacion s" "evaluar_cobertura args puntos ce (poblacion s)"
        "elitismo args"]
    by auto
  moreover have "bucle_cobertura (Suc m) args puntos ce a b c d st g = Inr (s', g')"
    using b gen by (subst bucle_cobertura_Suc) simp
  ultimately show ?case by blast
qed

lemma evaluar_cobertura_range:
  "y \<in> set (evaluar_cobertura args puntos ce pob) \<Longrightarrow> 0 \<le> y \<and> y \<le> 100"
  using fitness_ind_range by (auto simp: evaluar_cobertura_def)

lemma paso_cobertura:
  assumes "pob \<noteq> []" "1 \<le> k_torneo args"
  shows "\<exists>s g1 s' g2.
           bucle_cobertura m args puntos ce a b c d
             \<lparr>poblacion = pob, best_ind = [], best_fit = - 1\<rparr> g = Inr (s, g1)
         \<and> bucle_cobertura (Suc m) args puntos ce a b c d
             \<lparr>poblacion = pob, best_ind = [], best_fit = - 1\<rparr> g = Inr (s', g2)
         \<and> poblacion s \<noteq> []
         \<and> best_fit s' = max (best_fit s) (Max (set (evaluar_cobertura args puntos ce (poblacion s))))
         \<and> Max (set (evaluar_cobertura args puntos ce (poblacion s)))
             \<le> Max (set (evaluar_cobertura args puntos ce
                     (elites_de (poblacion s') (evaluar_cobertura args puntos ce (poblacion s'))
                        (elitismo args))))"
proof -
  let ?st0 = "\<lparr>poblacion = pob, best_ind = [], best_fit = - 1\<rparr>"
  let ?F = "fitness_ind args puntos ce"
  have ne0: "poblacion ?st0 \<noteq> []" using assms by simp
  obtain s g1 where b: "bucle_cobertura m args puntos ce a b c d ?st0 g = Inr (s, g1)"
    and ne: "poblacion s \<noteq> []"
    using bucle_cobertura_ok[OF ne0 assms(2), of m puntos ce a b c d g 0] by blast
  obtain s' g2 hijos where gen: "generacion_cobertura args puntos ce a b c d s g1 = Inr (s', g2)"
    and ps: "poblacion s' = elites_de (poblacion s)
                              (evaluar_cobertura args puntos ce (poblacion s)) (elitismo args) @ hijos"
    and bf: "best_fit s' = max (best_fit s) (Max (set (evaluar_cobertura args puntos ce (poblacion s))))"
    using generacion_cobertura_ok[OF ne assms(2), of puntos ce a b c d g1 0] by blast
  have b': "bucle_cobertura (Suc m) args puntos ce a b c d ?st0 g = Inr (s', g2)"
    using b gen by (subst bucle_cobertura_Suc) simp
  have sub: "set (elites_de (poblacion s) (map ?F (poblacion s)) (elitismo args)) \<subseteq> set (poblacion s')"
    using ps by (auto simp: evaluar_cobertura_def)
  have "Max (set (map ?F (poblacion s)))
          \<le> Max (set (map ?F (elites_de (poblacion s') (map ?F (poblacion s')) (elitismo args))))"
    using elite_paso[OF ne sub] .
  then show ?thesis using b b' ne bf unfolding evaluar_cobertura_def by blast
qed

lemma mejor_es_maximo:
  fixes bf :: "nat \<Rightarrow> real" and A :: "nat \<Rightarrow> real set"
  assumes "bf 0 = - 1"
    and "\<And>m. bf (Suc m) = max (bf m) (Max (A m))"
    and "\<And>m. finite (A m) \<and> A m \<noteq> {} \<and> (\<forall>y \<in> A m. 0 \<le> y)"
  shows "1 \<le> m \<Longrightarrow> bf m = Max (\<Union>j<m. A j)"
proof (induction m)
  case 0
  then show ?case by simp
next
  case (Suc m)
  show ?case
  proof (cases "m = 0")
    case True
    have "0 \<le> Max (A 0)" using assms(3)[of 0] by (meson Max_in)
    then have "bf (Suc 0) = Max (A 0)" using assms(1) assms(2)[of 0] by simp
    moreover have "(\<Union>j<Suc 0. A j) = A 0" by (simp add: lessThan_Suc)
    ultimately show ?thesis using True by simp
  next
    case False
    then have ih: "bf m = Max (\<Union>j<m. A j)" using Suc by simp
    have f1: "finite (\<Union>j<m. A j)" using assms(3) by simp
    have n1: "(\<Union>j<m. A j) \<noteq> {}" using False assms(3) by auto
    have "(\<Union>j<Suc m. A j) = (\<Union>j<m. A j) \<union> A m" by (auto simp: less_Suc_eq)
    then have "Max (\<Union>j<Suc m. A j) = max (Max (\<Union>j<m. A j)) (Max (A m))"
      using Max_Un[OF f1 n1, of "A m"] assms(3)[of m] by simp
    then show ?thesis using ih assms(2)[of m] by simp
  qed
qed

section \<open>Elitism\<close>

text \<open>
  C6. From any non-empty population and with a tournament size of at least 1, both loops
  run for any number of generations, and in each the best fitness of generation \<open>m\<close> is at
  most the best fitness among the elites of generation \<open>m + 1\<close> (the fitness being
  recomputed from the same cameras and grid). In the coverage loop, started as the search
  starts it, \<open>best_fit\<close> never decreases and after \<open>m \<ge> 1\<close> generations it is the maximum
  of all the fitness values evaluated in generations \<open>0, ..., m - 1\<close>.
\<close>

theorem elitismo_monotono:
  assumes "pobc \<noteq> []" "1 \<le> args_puntos_ciegos.k_torneo ac" "pob \<noteq> []" "1 \<le> k_torneo args"
  shows "(\<exists>P G Fs. \<forall>m.
            bucle_ciegos m ac camaras a b c d pobc g = Inr (P m, G m)
          \<and> evaluar_ciegos ac camaras (P m) = Inr (Fs m) \<and> Fs m \<noteq> []
          \<and> (\<exists>els. evaluar_ciegos ac camaras
                       (elites_de (P (Suc m)) (Fs (Suc m)) (args_puntos_ciegos.elitismo ac)) = Inr els
                   \<and> els \<noteq> [] \<and> Max (set (Fs m)) \<le> Max (set els)))
       \<and> (\<exists>S G. \<forall>m.
            bucle_cobertura m args puntos ce a' b' c' d'
              \<lparr>poblacion = pob, best_ind = [], best_fit = - 1\<rparr> g' = Inr (S m, G m)
          \<and> poblacion (S m) \<noteq> []
          \<and> Max (set (evaluar_cobertura args puntos ce (poblacion (S m))))
              \<le> Max (set (evaluar_cobertura args puntos ce
                      (elites_de (poblacion (S (Suc m)))
                         (evaluar_cobertura args puntos ce (poblacion (S (Suc m))))
                         (elitismo args))))
          \<and> best_fit (S m) \<le> best_fit (S (Suc m))
          \<and> (1 \<le> m \<longrightarrow> best_fit (S m)
                = Max (\<Union>j<m. set (evaluar_cobertura args puntos ce (poblacion (S j))))))"
proof (rule conjI)
  let ?B = "\<lambda>m. bucle_ciegos m ac camaras a b c d pobc g"
  define P where "P = (\<lambda>m. fst (projr (?B m)))"
  define G where "G = (\<lambda>m. snd (projr (?B m)))"
  define Fs where "Fs = (\<lambda>m. projr (evaluar_ciegos ac camaras (P m)))"
  have "\<forall>m. ?B m = Inr (P m, G m)
          \<and> evaluar_ciegos ac camaras (P m) = Inr (Fs m) \<and> Fs m \<noteq> []
          \<and> (\<exists>els. evaluar_ciegos ac camaras
                       (elites_de (P (Suc m)) (Fs (Suc m)) (args_puntos_ciegos.elitismo ac)) = Inr els
                   \<and> els \<noteq> [] \<and> Max (set (Fs m)) \<le> Max (set els))"
  proof
    fix m
    obtain p g1 p' g2 fs fs' els where
      1: "?B m = Inr (p, g1)" and 2: "?B (Suc m) = Inr (p', g2)"
      and 3: "evaluar_ciegos ac camaras p = Inr fs" and 4: "evaluar_ciegos ac camaras p' = Inr fs'"
      and 5: "evaluar_ciegos ac camaras (elites_de p' fs' (args_puntos_ciegos.elitismo ac)) = Inr els"
      and 6: "fs \<noteq> []" "els \<noteq> []" "Max (set fs) \<le> Max (set els)"
      using elitismo_ciegos[OF assms(1,2), of m camaras a b c d g] by blast
    have "P m = p" "G m = g1" "P (Suc m) = p'" using 1 2 by (simp_all add: P_def G_def)
    moreover from this have "Fs m = fs" "Fs (Suc m) = fs'" using 3 4 by (simp_all add: Fs_def)
    ultimately show "?B m = Inr (P m, G m)
          \<and> evaluar_ciegos ac camaras (P m) = Inr (Fs m) \<and> Fs m \<noteq> []
          \<and> (\<exists>els. evaluar_ciegos ac camaras
                       (elites_de (P (Suc m)) (Fs (Suc m)) (args_puntos_ciegos.elitismo ac)) = Inr els
                   \<and> els \<noteq> [] \<and> Max (set (Fs m)) \<le> Max (set els))"
      using 1 3 5 6 by simp
  qed
  then show "\<exists>P G Fs. \<forall>m.
            bucle_ciegos m ac camaras a b c d pobc g = Inr (P m, G m)
          \<and> evaluar_ciegos ac camaras (P m) = Inr (Fs m) \<and> Fs m \<noteq> []
          \<and> (\<exists>els. evaluar_ciegos ac camaras
                       (elites_de (P (Suc m)) (Fs (Suc m)) (args_puntos_ciegos.elitismo ac)) = Inr els
                   \<and> els \<noteq> [] \<and> Max (set (Fs m)) \<le> Max (set els))"
    by blast
next
  let ?st0 = "\<lparr>poblacion = pob, best_ind = [], best_fit = - 1\<rparr>"
  let ?B = "\<lambda>m. bucle_cobertura m args puntos ce a' b' c' d' ?st0 g'"
  let ?E = "\<lambda>s. evaluar_cobertura args puntos ce (poblacion s)"
  define S where "S = (\<lambda>m. fst (projr (?B m)))"
  define G where "G = (\<lambda>m. snd (projr (?B m)))"
  have paso: "?B m = Inr (S m, G m) \<and> poblacion (S m) \<noteq> []
          \<and> best_fit (S (Suc m)) = max (best_fit (S m)) (Max (set (?E (S m))))
          \<and> Max (set (?E (S m)))
              \<le> Max (set (evaluar_cobertura args puntos ce
                      (elites_de (poblacion (S (Suc m))) (?E (S (Suc m))) (elitismo args))))" for m
  proof -
    obtain s g1 s' g2 where
      1: "?B m = Inr (s, g1)" and 2: "?B (Suc m) = Inr (s', g2)" and 3: "poblacion s \<noteq> []"
      and 4: "best_fit s' = max (best_fit s) (Max (set (?E s)))"
      and 5: "Max (set (?E s)) \<le> Max (set (evaluar_cobertura args puntos ce
                      (elites_de (poblacion s') (?E s') (elitismo args))))"
      using paso_cobertura[OF assms(3,4), of m puntos ce a' b' c' d' g'] by blast
    have "S m = s" "G m = g1" "S (Suc m) = s'" using 1 2 by (simp_all add: S_def G_def)
    then show ?thesis using 1 3 4 5 by simp
  qed
  have s0: "best_fit (S 0) = - 1" by (simp add: S_def)
  have fin: "finite (set (?E (S m))) \<and> set (?E (S m)) \<noteq> {} \<and> (\<forall>y \<in> set (?E (S m)). 0 \<le> y)" for m
    using paso[of m] evaluar_cobertura_range[of _ args puntos ce "poblacion (S m)"]
    by (simp add: evaluar_cobertura_def)
  have mx: "1 \<le> m \<Longrightarrow> best_fit (S m) = Max (\<Union>j<m. set (?E (S j)))" for m
    using mejor_es_maximo[of "\<lambda>m. best_fit (S m)" "\<lambda>m. set (?E (S m))" m] s0 paso fin by blast
  have mono: "best_fit (S m) \<le> best_fit (S (Suc m))" for m using paso[of m] by simp
  show "\<exists>S G. \<forall>m.
            ?B m = Inr (S m, G m)
          \<and> poblacion (S m) \<noteq> []
          \<and> Max (set (?E (S m)))
              \<le> Max (set (evaluar_cobertura args puntos ce
                      (elites_de (poblacion (S (Suc m))) (?E (S (Suc m))) (elitismo args))))
          \<and> best_fit (S m) \<le> best_fit (S (Suc m))
          \<and> (1 \<le> m \<longrightarrow> best_fit (S m) = Max (\<Union>j<m. set (?E (S j))))"
    using paso mx mono by blast
qed

text \<open>A witness for C6: one camera, populations of one individual, the default arguments.\<close>

theorem elitismo_monotono_testigo:
  "[(0, 0)] \<noteq> ([] :: punto list)
   \<and> 1 \<le> args_puntos_ciegos.k_torneo args_puntos_ciegos_defecto
   \<and> [[(0, 0)]] \<noteq> ([] :: punto list list)
   \<and> 1 \<le> k_torneo args_cobertura_defecto
   \<and> (\<exists>p g1. bucle_ciegos 1 args_puntos_ciegos_defecto [(0, 0)] 0 0 0 0 [(0, 0)] cinta_cero
                = Inr (p, g1))
   \<and> (\<exists>s g1. bucle_cobertura 1 args_cobertura_defecto [(0, 0)] [(0, 0)] 0 0 0 0
                 \<lparr>poblacion = [[(0, 0)]], best_ind = [], best_fit = - 1\<rparr> cinta_cero = Inr (s, g1)
              \<and> best_fit s = Max (set (evaluar_cobertura args_cobertura_defecto [(0, 0)] [(0, 0)]
                                          [[(0, 0)]])))"
proof -
  have h1: "[(0, 0)] \<noteq> ([] :: punto list)" by simp
  have h2: "1 \<le> args_puntos_ciegos.k_torneo args_puntos_ciegos_defecto"
    by (simp add: args_puntos_ciegos_defecto_def)
  have h3: "[[(0, 0)]] \<noteq> ([] :: punto list list)" by simp
  have h4: "1 \<le> k_torneo args_cobertura_defecto" by (simp add: args_cobertura_defecto_def)
  let ?st0 = "\<lparr>poblacion = [[(0::real, 0::real)]], best_ind = [], best_fit = - 1\<rparr>"
  from elitismo_monotono[OF h1 h2 h3 h4, of "[(0, 0)]" 0 0 0 0 cinta_cero "[(0, 0)]" "[(0, 0)]"
        0 0 0 0 cinta_cero]
  obtain P G Fs S G' where
    A: "\<forall>m. bucle_ciegos m args_puntos_ciegos_defecto [(0, 0)] 0 0 0 0 [(0, 0)] cinta_cero
            = Inr (P m, G m)"
    and B: "\<forall>m. bucle_cobertura m args_cobertura_defecto [(0, 0)] [(0, 0)] 0 0 0 0 ?st0 cinta_cero
              = Inr (S m, G' m)
          \<and> (1 \<le> m \<longrightarrow> best_fit (S m)
                = Max (\<Union>j<m. set (evaluar_cobertura args_cobertura_defecto [(0, 0)] [(0, 0)]
                                      (poblacion (S j)))))"
    by blast
  have S0: "S 0 = ?st0" using B[rule_format, of 0] by simp
  have "best_fit (S 1) = Max (\<Union>j<1. set (evaluar_cobertura args_cobertura_defecto [(0, 0)] [(0, 0)]
                                      (poblacion (S j))))"
    using B[rule_format, of 1] by simp
  then have "best_fit (S 1) = Max (set (evaluar_cobertura args_cobertura_defecto [(0, 0)] [(0, 0)]
                                          [[(0, 0)]]))"
    using S0 by (simp add: lessThan_Suc)
  then show ?thesis using h1 h2 h3 h4 A[rule_format, of 1] B[rule_format, of 1] by blast
qed

section \<open>Facts about the evaluation grid\<close>

lemma grid_fila_termina_aux:
  "0 < step \<Longrightarrow> max_lon - lon < real k * step \<Longrightarrow> \<exists>r. grid_fila lat lon max_lon step pts = Some r"
proof (induction k arbitrary: lon pts)
  case 0
  then show ?case by (subst grid_fila.simps) simp
next
  case (Suc k)
  show ?case
  proof (cases "lon \<le> max_lon")
    case False
    then show ?thesis by (subst grid_fila.simps) simp
  next
    case True
    have "max_lon - (lon + step) < real k * step" using Suc.prems by (simp add: algebra_simps)
    from Suc.IH[OF Suc.prems(1) this, of "pts @ [(lat, lon)]"] True
    show ?thesis by (subst grid_fila.simps) simp
  qed
qed

lemma grid_fila_termina:
  assumes "0 < step"
  shows "\<exists>r. grid_fila lat lon max_lon step pts = Some r"
proof -
  obtain k :: nat where "max_lon - lon < real k * step"
    using ex_less_of_nat_mult[OF assms] by blast
  then show ?thesis using grid_fila_termina_aux[OF assms] by blast
qed

lemma grid_filas_termina_aux:
  "0 < step_lat \<Longrightarrow> 0 < step_lon \<Longrightarrow> max_lat - lat < real k * step_lat
     \<Longrightarrow> \<exists>r. grid_filas lat max_lat min_lon max_lon step_lat step_lon pts = Some r"
proof (induction k arbitrary: lat pts)
  case 0
  then show ?case by (subst grid_filas.simps) simp
next
  case (Suc k)
  show ?case
  proof (cases "lat \<le> max_lat")
    case False
    then show ?thesis by (subst grid_filas.simps) simp
  next
    case True
    obtain pts' where f: "grid_fila lat min_lon max_lon step_lon pts = Some pts'"
      using grid_fila_termina[OF Suc.prems(2)] by blast
    have "max_lat - (lat + step_lat) < real k * step_lat" using Suc.prems by (simp add: algebra_simps)
    from Suc.IH[OF Suc.prems(1,2) this, of pts'] True f
    show ?thesis by (subst grid_filas.simps) simp
  qed
qed

lemma grid_filas_termina:
  assumes "0 < step_lat" "0 < step_lon"
  shows "\<exists>r. grid_filas lat max_lat min_lon max_lon step_lat step_lon pts = Some r"
proof -
  obtain k :: nat where "max_lat - lat < real k * step_lat"
    using ex_less_of_nat_mult[OF assms(1)] by blast
  then show ?thesis using grid_filas_termina_aux[OF assms] by blast
qed

lemma grid_fila_no_termina_aux:
  assumes "grid_fila lat lon max_lon step pts = Some r"
  shows "0 < step \<or> max_lon < lon"
proof (rule grid_fila.raw_induct
         [where P = "\<lambda>lat lon max_lon step pts r. 0 < step \<or> max_lon < lon", OF _ assms])
  fix f :: "real \<Rightarrow> real \<Rightarrow> real \<Rightarrow> real \<Rightarrow> punto list \<Rightarrow> punto list option"
  fix lat lon max_lon step :: real and pts r :: "punto list"
  assume IH: "\<And>lat lon max_lon step pts r.
                f lat lon max_lon step pts = Some r \<Longrightarrow> 0 < step \<or> max_lon < lon"
    and eq: "(if lon \<le> max_lon
              then f lat (lon + step) max_lon step (pts @ [(lat, lon)])
              else Some pts) = Some r"
  show "0 < step \<or> max_lon < lon"
  proof (cases "lon \<le> max_lon")
    case False
    then show ?thesis by simp
  next
    case True
    with eq have "f lat (lon + step) max_lon step (pts @ [(lat, lon)]) = Some r" by simp
    then have "0 < step \<or> max_lon < lon + step" by (rule IH)
    then show ?thesis using True by auto
  qed
qed

lemma grid_fila_no_termina:
  "step \<le> 0 \<Longrightarrow> lon \<le> max_lon \<Longrightarrow> grid_fila lat lon max_lon step pts = None"
  using grid_fila_no_termina_aux[of lat lon max_lon step pts] by (cases "grid_fila lat lon max_lon step pts") auto

lemma grid_filas_no_termina:
  "step_lon \<le> 0 \<Longrightarrow> min_lon \<le> max_lon \<Longrightarrow> lat \<le> max_lat
     \<Longrightarrow> grid_filas lat max_lat min_lon max_lon step_lat step_lon pts = None"
  by (subst grid_filas.simps) (simp add: grid_fila_no_termina)

lemma foldl_max_Max: "foldl (\<lambda>b y. if b < y then y else b) x xs = Max (set (x # xs))"
proof (induction xs arbitrary: x)
  case Nil
  then show ?case by simp
next
  case (Cons y ys)
  have "Max (set ((if x < y then y else x) # ys)) = Max (set (x # y # ys))"
    by (cases ys) (auto simp: max_def)
  with Cons show ?case by simp
qed

lemma py_max_Max: "xs \<noteq> [] \<Longrightarrow> py_max xs = Inr (Max (set xs))"
  by (cases xs) (simp_all only: py_max.simps foldl_max_Max, simp)

lemma Min_le_Max_lista:
  fixes xs :: "real list"
  shows "xs \<noteq> [] \<Longrightarrow> Min (set xs) \<le> Max (set xs)"
  by (metis List.finite_set Max_ge Min_le hd_in_set order_trans)

lemma bbox_orden:
  assumes "bbox camaras = Inr (a, b, c, d)"
  shows "a \<le> b \<and> c \<le> d"
proof -
  have ne: "camaras \<noteq> []" using assms by (auto simp: bbox_def)
  let ?lats = "map fst (map get_lat_lon camaras)"
  let ?lons = "map snd (map get_lat_lon camaras)"
  have l1: "?lats \<noteq> []" and l2: "?lons \<noteq> []" using ne by simp_all
  have "bbox camaras = Inr (Min (set ?lats), Max (set ?lats), Min (set ?lons), Max (set ?lons))"
    unfolding bbox_def Let_def
    by (simp only: py_min_Min[OF l1] py_max_Max[OF l1] py_min_Min[OF l2] py_max_Max[OF l2]) simp
  then have "a = Min (set ?lats)" "b = Max (set ?lats)" "c = Min (set ?lons)" "d = Max (set ?lons)"
    using assms by simp_all
  then show ?thesis using Min_le_Max_lista[OF l1] Min_le_Max_lista[OF l2] by simp
qed

lemma generar_grid_puntos_ok:
  assumes "camaras \<noteq> []" "0 < step_m" "0 \<le> max_points"
  shows "\<exists>pts g'. generar_grid_puntos camaras step_m margin max_points g = Some (Inr (pts, g'))"
proof -
  obtain a1 a2 a3 a4 where bb: "bbox camaras = Inr (a1, a2, a3, a4)"
    using bbox_ok[OF assms(1)] by blast
  define min_lat where "min_lat = a1 - max (a2 - a1) (1 / 10 ^ 9) * margin"
  define max_lat where "max_lat = a2 + max (a2 - a1) (1 / 10 ^ 9) * margin"
  define min_lon where "min_lon = a3 - max (a4 - a3) (1 / 10 ^ 9) * margin"
  define max_lon where "max_lon = a4 + max (a4 - a3) (1 / 10 ^ 9) * margin"
  define step_lat where "step_lat = step_m / 111320.0"
  define step_lon where
    "step_lon = step_m / max (111320.0 * cos (radians ((min_lat + max_lat) / 2.0))) (1 / 10 ^ 6)"
  have p1: "0 < step_lat" using assms(2) by (simp add: step_lat_def)
  have "(0::real) < max (111320.0 * cos (radians ((min_lat + max_lat) / 2.0))) (1 / 10 ^ 6)"
    by (simp add: max_def)
  then have p2: "0 < step_lon" using assms(2) unfolding step_lon_def by (rule divide_pos_pos[rotated])
  obtain pts where gr: "grid_filas min_lat max_lat min_lon max_lon step_lat step_lon [] = Some pts"
    using grid_filas_termina[OF p1 p2] by blast
  have eq: "generar_grid_puntos camaras step_m margin max_points g =
          (if max_points \<noteq> 0 \<and> int (length pts) > max_points
           then (case random_sample pts max_points g of
                   Inl e \<Rightarrow> Some (Inl e)
                 | Inr (muestra, g') \<Rightarrow> Some (Inr (muestra, g')))
           else Some (Inr (pts, g)))"
    using assms(1) bb gr
    unfolding generar_grid_puntos_def Let_def min_lat_def max_lat_def min_lon_def max_lon_def
      step_lat_def step_lon_def
    by (simp split del: if_split)
  show ?thesis
  proof (cases "max_points \<noteq> 0 \<and> int (length pts) > max_points")
    case False
    then show ?thesis using eq by auto
  next
    case True
    then have "max_points \<le> int (length pts)" by simp
    then obtain r g' where "random_sample pts max_points g = Inr (r, g')"
      using random_sample_ok[OF assms(3)] by blast
    then show ?thesis using eq True by simp
  qed
qed

lemma generar_grid_puntos_no_termina:
  assumes "camaras \<noteq> []" "step_m \<le> 0" "0 \<le> margin"
  shows "generar_grid_puntos camaras step_m margin max_points g = None"
proof -
  obtain a1 a2 a3 a4 where bb: "bbox camaras = Inr (a1, a2, a3, a4)"
    using bbox_ok[OF assms(1)] by blast
  have o: "a1 \<le> a2 \<and> a3 \<le> a4" using bbox_orden[OF bb] .
  define min_lat where "min_lat = a1 - max (a2 - a1) (1 / 10 ^ 9) * margin"
  define max_lat where "max_lat = a2 + max (a2 - a1) (1 / 10 ^ 9) * margin"
  define min_lon where "min_lon = a3 - max (a4 - a3) (1 / 10 ^ 9) * margin"
  define max_lon where "max_lon = a4 + max (a4 - a3) (1 / 10 ^ 9) * margin"
  define step_lat where "step_lat = step_m / 111320.0"
  define step_lon where
    "step_lon = step_m / max (111320.0 * cos (radians ((min_lat + max_lat) / 2.0))) (1 / 10 ^ 6)"
  have m1: "0 \<le> max (a2 - a1) (1 / 10 ^ 9) * margin" using assms(3) by (simp add: max_def)
  have m2: "0 \<le> max (a4 - a3) (1 / 10 ^ 9) * margin" using assms(3) by (simp add: max_def)
  have l1: "min_lat \<le> max_lat" using o m1 unfolding min_lat_def max_lat_def by linarith
  have l2: "min_lon \<le> max_lon" using o m2 unfolding min_lon_def max_lon_def by linarith
  have "(0::real) < max (111320.0 * cos (radians ((min_lat + max_lat) / 2.0))) (1 / 10 ^ 6)"
    by (simp add: max_def)
  then have p2: "step_lon \<le> 0" using assms(2) unfolding step_lon_def
    by (simp add: divide_nonpos_pos)
  have gr: "grid_filas min_lat max_lat min_lon max_lon step_lat step_lon [] = None"
    using grid_filas_no_termina[OF p2 l2 l1] .
  show ?thesis
    using assms(1) bb gr
    unfolding generar_grid_puntos_def Let_def min_lat_def max_lat_def min_lon_def max_lon_def
      step_lat_def step_lon_def
    by (simp split del: if_split)
qed

lemma puntos_de_evaluacion_ok:
  assumes "ce \<noteq> []" "puntos_eval args = None \<longrightarrow> 0 < step_grid_m args \<and> 0 \<le> grid_max_points args"
  shows "\<exists>pe g'. puntos_de_evaluacion args ce g = Some (Inr (pe, g'))"
proof -
  have "\<exists>pe g1. (case puntos_eval args of
              None \<Rightarrow> generar_grid_puntos ce (step_grid_m args) 0.06 (grid_max_points args) g
            | Some pe \<Rightarrow> Some (Inr (pe, g))) = Some (Inr (pe, g1))"
  proof (cases "puntos_eval args")
    case None
    then show ?thesis using generar_grid_puntos_ok[OF assms(1), of "step_grid_m args" "grid_max_points args" "0.06" g] assms(2)
      by simp
  next
    case (Some pe)
    then show ?thesis by simp
  qed
  then obtain pe g1 where 1: "(case puntos_eval args of
              None \<Rightarrow> generar_grid_puntos ce (step_grid_m args) 0.06 (grid_max_points args) g
            | Some pe \<Rightarrow> Some (Inr (pe, g))) = Some (Inr (pe, g1))" by blast
  have k0: "0 \<le> min 200 (int (length ce))" by simp
  have k1: "min 200 (int (length ce)) \<le> int (length ce)" by simp
  obtain r g2 where 2: "random_sample ce (min 200 (int (length ce))) g1 = Inr (r, g2)"
    using random_sample_ok[OF k0 k1] by blast
  show ?thesis unfolding puntos_de_evaluacion_def 1 using 2 by (cases "pe = []") simp_all
qed

lemma puntos_de_evaluacion_no_termina:
  assumes "ce \<noteq> []" "puntos_eval args = None" "step_grid_m args \<le> 0"
  shows "puntos_de_evaluacion args ce g = None"
  using generar_grid_puntos_no_termina[OF assms(1,3), of "0.06" "grid_max_points args" g] assms(2)
  by (simp add: puntos_de_evaluacion_def)

section \<open>Facts about the coverage search as a whole\<close>

lemma Max_evaluar_range:
  assumes "pob \<noteq> []"
  shows "0 \<le> Max (set (evaluar_cobertura args puntos ce pob))
       \<and> Max (set (evaluar_cobertura args puntos ce pob)) \<le> 100"
proof -
  have "set (evaluar_cobertura args puntos ce pob) \<noteq> {}" using assms by (simp add: evaluar_cobertura_def)
  then have "Max (set (evaluar_cobertura args puntos ce pob)) \<in> set (evaluar_cobertura args puntos ce pob)"
    by (intro Max_in) simp_all
  then show ?thesis by (rule evaluar_cobertura_range)
qed

lemma mejor_tras_generacion:
  assumes "poblacion st \<noteq> []" "1 \<le> k_torneo args" "\<forall>p \<in> set (poblacion st). length p = L"
    and "best_fit st < 0 \<or> (length (best_ind st) = L \<and> 0 \<le> best_fit st \<and> best_fit st \<le> 100)"
  shows "\<exists>s g'. generacion_cobertura args puntos ce a b c d st g = Inr (s, g')
           \<and> poblacion s \<noteq> [] \<and> (\<forall>p \<in> set (poblacion s). length p = L)
           \<and> length (best_ind s) = L \<and> 0 \<le> best_fit s \<and> best_fit s \<le> 100"
proof -
  let ?fits = "evaluar_cobertura args puntos ce (poblacion st)"
  let ?el = "elites_de (poblacion st) ?fits (elitismo args)"
  obtain s g' hijos i where gen: "generacion_cobertura args puntos ce a b c d st g = Inr (s, g')"
    and ps: "poblacion s = ?el @ hijos"
    and hl: "\<forall>h \<in> set hijos. length h = L"
    and bf: "best_fit s = max (best_fit st) (Max (set ?fits))"
    and il: "i < length (poblacion st)"
    and bi: "best_ind s = (if best_fit st < Max (set ?fits) then poblacion st ! i else best_ind st)"
    using generacion_cobertura_ok[OF assms(1,2), of puntos ce a b c d g L] assms(3) by blast
  have mr: "0 \<le> Max (set ?fits) \<and> Max (set ?fits) \<le> 100" using Max_evaluar_range[OF assms(1)] .
  have ne: "poblacion s \<noteq> []" using ps elites_de_no_vacio[OF assms(1)] by simp
  have ll: "\<forall>p \<in> set (poblacion s). length p = L"
    using ps hl assms(3) elites_de_subset[of "poblacion st" ?fits "elitismo args"] by auto
  have li: "length (poblacion st ! i) = L" using il assms(3) by simp
  have "length (best_ind s) = L \<and> 0 \<le> best_fit s \<and> best_fit s \<le> 100"
    using assms(4) bf bi mr li by (auto simp: max_def)
  then show ?thesis using gen ne ll by blast
qed

lemma bucle_cobertura_mejor:
  assumes "pob \<noteq> []" "1 \<le> k_torneo args" "\<forall>p \<in> set pob. length p = L"
  shows "\<exists>s g'. bucle_cobertura (Suc m) args puntos ce a b c d
                   \<lparr>poblacion = pob, best_ind = [], best_fit = - 1\<rparr> g = Inr (s, g')
           \<and> poblacion s \<noteq> [] \<and> (\<forall>p \<in> set (poblacion s). length p = L)
           \<and> length (best_ind s) = L \<and> 0 \<le> best_fit s \<and> best_fit s \<le> 100"
proof (induction m)
  case 0
  let ?st0 = "\<lparr>poblacion = pob, best_ind = [], best_fit = - 1\<rparr>"
  have "\<exists>s g'. generacion_cobertura args puntos ce a b c d ?st0 g = Inr (s, g')
           \<and> poblacion s \<noteq> [] \<and> (\<forall>p \<in> set (poblacion s). length p = L)
           \<and> length (best_ind s) = L \<and> 0 \<le> best_fit s \<and> best_fit s \<le> 100"
    using assms by (intro mejor_tras_generacion) simp_all
  then show ?case by auto
next
  case (Suc m)
  let ?st0 = "\<lparr>poblacion = pob, best_ind = [], best_fit = - 1\<rparr>"
  from Suc obtain s g1 where b: "bucle_cobertura (Suc m) args puntos ce a b c d ?st0 g = Inr (s, g1)"
    and i: "poblacion s \<noteq> []" "\<forall>p \<in> set (poblacion s). length p = L"
       "length (best_ind s) = L" "0 \<le> best_fit s" "best_fit s \<le> 100"
    by blast
  have "\<exists>s' g'. generacion_cobertura args puntos ce a b c d s g1 = Inr (s', g')
           \<and> poblacion s' \<noteq> [] \<and> (\<forall>p \<in> set (poblacion s'). length p = L)
           \<and> length (best_ind s') = L \<and> 0 \<le> best_fit s' \<and> best_fit s' \<le> 100"
    using i assms(2) by (intro mejor_tras_generacion) simp_all
  then show ?case using b by (subst bucle_cobertura_Suc) simp
qed

lemma buscar_cobertura_ok:
  assumes "ce \<noteq> []" "0 \<le> n_camaras_nuevas args" "1 \<le> tam_poblacion args"
    "1 \<le> generaciones args" "1 \<le> k_torneo args"
  shows "\<exists>r g'. buscar_cobertura args ce puntos g = Inr (r, g')
           \<and> length (camaras_nuevas r) = nat (n_camaras_nuevas args)
           \<and> 0 \<le> fitness r \<and> fitness r \<le> 100"
proof -
  obtain a1 a2 a3 a4 where bb: "bbox ce = Inr (a1, a2, a3, a4)" using bbox_ok[OF assms(1)] by blast
  define a where "a = a1 - max (a2 - a1) (1 / 10 ^ 9) * bbox_margin_factor args"
  define b where "b = a2 + max (a2 - a1) (1 / 10 ^ 9) * bbox_margin_factor args"
  define c where "c = a3 - max (a4 - a3) (1 / 10 ^ 9) * bbox_margin_factor args"
  define d where "d = a4 + max (a4 - a3) (1 / 10 ^ 9) * bbox_margin_factor args"
  define sem where "sem = clamp_puntos (case puntos_semilla args of None \<Rightarrow> [] | Some ss \<Rightarrow> ss) a b c d"
  obtain pob g1 where cp: "crear_poblacion (nat (tam_poblacion args)) args ce sem a b c d g = Inr (pob, g1)"
    and lp: "length pob = nat (tam_poblacion args)"
    and al: "\<forall>ind \<in> set pob. length ind = nat (n_camaras_nuevas args)"
    using crear_poblacion_ok[of args sem "nat (tam_poblacion args)" ce a b c d g] assms(2) by blast
  have ne: "pob \<noteq> []" using lp assms(3) by auto
  obtain m where m: "nat (generaciones args) = Suc m" using assms(4) by (cases "nat (generaciones args)") auto
  obtain s g2 where bu: "bucle_cobertura (nat (generaciones args)) args puntos ce a b c d
                   \<lparr>poblacion = pob, best_ind = [], best_fit = - 1\<rparr> g1 = Inr (s, g2)"
    and j: "length (best_ind s) = nat (n_camaras_nuevas args)" "0 \<le> best_fit s" "best_fit s \<le> 100"
    using bucle_cobertura_mejor[OF ne assms(5) al, of m puntos ce a b c d g1] unfolding m by blast
  show ?thesis
    using bb cp bu j
    unfolding buscar_cobertura_def Let_def a_def b_def c_def d_def sem_def
    by simp
qed

lemma buscar_cobertura_sin_generaciones:
  assumes "ce \<noteq> []" "generaciones args \<le> 0" "0 \<le> n_camaras_nuevas args \<or> puntos_semilla args = None"
  shows "\<exists>r g'. buscar_cobertura args ce puntos g = Inr (r, g')
           \<and> camaras_nuevas r = [] \<and> fitness r = - 1"
proof -
  obtain a1 a2 a3 a4 where bb: "bbox ce = Inr (a1, a2, a3, a4)" using bbox_ok[OF assms(1)] by blast
  define a where "a = a1 - max (a2 - a1) (1 / 10 ^ 9) * bbox_margin_factor args"
  define b where "b = a2 + max (a2 - a1) (1 / 10 ^ 9) * bbox_margin_factor args"
  define c where "c = a3 - max (a4 - a3) (1 / 10 ^ 9) * bbox_margin_factor args"
  define d where "d = a4 + max (a4 - a3) (1 / 10 ^ 9) * bbox_margin_factor args"
  define sem where "sem = clamp_puntos (case puntos_semilla args of None \<Rightarrow> [] | Some ss \<Rightarrow> ss) a b c d"
  have "0 \<le> n_camaras_nuevas args \<or> sem = []"
    using assms(3) by (auto simp: sem_def clamp_puntos_def)
  then obtain pob g1 where cp: "crear_poblacion (nat (tam_poblacion args)) args ce sem a b c d g = Inr (pob, g1)"
    using crear_poblacion_ok[of args sem "nat (tam_poblacion args)" ce a b c d g] by blast
  have z: "nat (generaciones args) = 0" using assms(2) by simp
  show ?thesis
    using bb cp
    unfolding buscar_cobertura_def Let_def a_def b_def c_def d_def sem_def z
    by simp
qed

lemma mejorar_cobertura_sin_generaciones:
  assumes "camaras \<noteq> []" "generaciones args \<le> 0"
    "0 \<le> n_camaras_nuevas args \<or> puntos_semilla args = None"
    "puntos_eval args = None \<longrightarrow> 0 < step_grid_m args \<and> 0 \<le> grid_max_points args"
  shows "\<exists>r g'. algoritmo_genetico_mejorar_cobertura camaras args g = Some (Inr (r, g'))
           \<and> camaras_nuevas r = [] \<and> fitness r = - 1"
proof -
  have ne: "map get_lat_lon camaras \<noteq> []" using assms(1) by simp
  obtain pe g1 where p: "puntos_de_evaluacion args (map get_lat_lon camaras) g = Some (Inr (pe, g1))"
    using puntos_de_evaluacion_ok[OF ne assms(4)] by blast
  obtain r g' where "buscar_cobertura args (map get_lat_lon camaras) pe g1 = Inr (r, g')"
    and "camaras_nuevas r = []" "fitness r = - 1"
    using buscar_cobertura_sin_generaciones[OF ne assms(2,3)] by blast
  then show ?thesis using assms(1) p
    by (simp add: algoritmo_genetico_mejorar_cobertura_def Let_def)
qed

lemma mejorar_cobertura_no_termina:
  assumes "camaras \<noteq> []" "puntos_eval args = None" "step_grid_m args \<le> 0"
  shows "algoritmo_genetico_mejorar_cobertura camaras args g = None"
proof -
  have ne: "map get_lat_lon camaras \<noteq> []" using assms(1) by simp
  show ?thesis
    using assms(1) puntos_de_evaluacion_no_termina[OF ne assms(2,3)]
    by (simp add: algoritmo_genetico_mejorar_cobertura_def Let_def)
qed

section \<open>The result of the coverage search\<close>

text \<open>
  C3, as stated, fails: with \<open>generaciones = 0\<close> and every other argument at its default
  (five cameras requested) the search returns no camera at all and the fitness \<open>-1.0\<close>
  that \<open>best_fit\<close> starts with.
\<close>

theorem cobertura_sin_generaciones_contraejemplo:
  "n_camaras_nuevas (args_cobertura_defecto\<lparr>generaciones := 0\<rparr>) = 5
   \<and> resumen_cobertura
        (algoritmo_genetico_mejorar_cobertura [(0, 0)]
           (args_cobertura_defecto\<lparr>generaciones := 0\<rparr>) cinta_cero)
       = Some (Inr (0, - 1))"
proof -
  let ?args = "args_cobertura_defecto\<lparr>generaciones := 0\<rparr>"
  have "\<exists>r g'. algoritmo_genetico_mejorar_cobertura [(0, 0)] ?args cinta_cero = Some (Inr (r, g'))
           \<and> camaras_nuevas r = [] \<and> fitness r = - 1"
    by (rule mejorar_cobertura_sin_generaciones) (simp_all add: args_cobertura_defecto_def)
  then show ?thesis by (auto simp: resumen_cobertura_def args_cobertura_defecto_def)
qed

text \<open>
  C3, amended. For a non-empty camera input, a requested count \<open>n_camaras_nuevas \<ge> 0\<close>, a
  population size, a generation count and a tournament size of at least 1, and either
  evaluation points given by the caller or a positive grid step with a non-negative
  \<open>grid_max_points\<close>, the search returns (for every random tape) exactly \<open>n_camaras_nuevas\<close>
  coordinate pairs and a fitness in \<open>[0, 100]\<close>.
\<close>

theorem mejorar_cobertura_resultado:
  assumes "camaras \<noteq> []" "0 \<le> n_camaras_nuevas args" "1 \<le> tam_poblacion args"
    "1 \<le> generaciones args" "1 \<le> k_torneo args"
    "puntos_eval args = None \<longrightarrow> 0 < step_grid_m args \<and> 0 \<le> grid_max_points args"
  shows "\<exists>r g'. algoritmo_genetico_mejorar_cobertura camaras args g = Some (Inr (r, g'))
           \<and> length (camaras_nuevas r) = nat (n_camaras_nuevas args)
           \<and> 0 \<le> fitness r \<and> fitness r \<le> 100"
proof -
  have ne: "map get_lat_lon camaras \<noteq> []" using assms(1) by simp
  obtain pe g1 where p: "puntos_de_evaluacion args (map get_lat_lon camaras) g = Some (Inr (pe, g1))"
    using puntos_de_evaluacion_ok[OF ne assms(6)] by blast
  obtain r g' where "buscar_cobertura args (map get_lat_lon camaras) pe g1 = Inr (r, g')"
    and "length (camaras_nuevas r) = nat (n_camaras_nuevas args)" "0 \<le> fitness r" "fitness r \<le> 100"
    using buscar_cobertura_ok[OF ne assms(2,3,4,5)] by blast
  then show ?thesis using assms(1) p
    by (simp add: algoritmo_genetico_mejorar_cobertura_def Let_def)
qed

text \<open>A witness for C3: one camera and the default arguments.\<close>

theorem mejorar_cobertura_resultado_testigo:
  "[(0, 0)] \<noteq> ([] :: punto list)
   \<and> 0 \<le> n_camaras_nuevas args_cobertura_defecto
   \<and> 1 \<le> tam_poblacion args_cobertura_defecto
   \<and> 1 \<le> generaciones args_cobertura_defecto
   \<and> 1 \<le> k_torneo args_cobertura_defecto
   \<and> puntos_eval args_cobertura_defecto = None
   \<and> 0 < step_grid_m args_cobertura_defecto
   \<and> 0 \<le> grid_max_points args_cobertura_defecto
   \<and> (\<exists>r g'. algoritmo_genetico_mejorar_cobertura [(0, 0)] args_cobertura_defecto cinta_cero
                 = Some (Inr (r, g'))
              \<and> length (camaras_nuevas r) = 5 \<and> 0 \<le> fitness r \<and> fitness r \<le> 100)"
  using mejorar_cobertura_resultado[of "[(0, 0)]" args_cobertura_defecto cinta_cero]
  by (simp add: args_cobertura_defecto_def)

section \<open>Invalid configuration\<close>

text \<open>
  C2, as stated, fails: a population size of 0 is not rejected; the blind-spot search
  returns the empty list as an ordinary result, without drawing from the random source.
\<close>

theorem sin_validacion_contraejemplo:
  "args_puntos_ciegos.tam_poblacion
       (args_puntos_ciegos_defecto\<lparr>args_puntos_ciegos.tam_poblacion := 0\<rparr>) \<le> 0
   \<and> algoritmo_genetico_puntos_ciegos [(0, 0)]
        (args_puntos_ciegos_defecto\<lparr>args_puntos_ciegos.tam_poblacion := 0\<rparr>) cinta_cero
       = Inr ([], cinta_cero)"
  using puntos_ciegos_sin_poblacion[of "[(0, 0)]"
          "args_puntos_ciegos_defecto\<lparr>args_puntos_ciegos.tam_poblacion := 0\<rparr>" cinta_cero]
  by simp

text \<open>
  C2, amended. Neither entry point validates its configuration. With a non-empty camera
  input: a non-positive population size makes the blind-spot search return the empty list;
  a non-positive generation count makes the coverage search return no camera and the
  fitness \<open>-1.0\<close> (when the requested count is not negative or no seed points are given, and
  the grid is given or can be built); and a non-positive grid step, with no evaluation
  points given, makes the coverage search never return.
\<close>

theorem configuracion_sin_validar:
  assumes "camaras \<noteq> []"
  shows "(args_puntos_ciegos.tam_poblacion ac \<le> 0
            \<longrightarrow> algoritmo_genetico_puntos_ciegos camaras ac g = Inr ([], g))
       \<and> (generaciones args \<le> 0
            \<and> (0 \<le> n_camaras_nuevas args \<or> puntos_semilla args = None)
            \<and> (puntos_eval args = None \<longrightarrow> 0 < step_grid_m args \<and> 0 \<le> grid_max_points args)
            \<longrightarrow> (\<exists>r g'. algoritmo_genetico_mejorar_cobertura camaras args g = Some (Inr (r, g'))
                         \<and> camaras_nuevas r = [] \<and> fitness r = - 1))
       \<and> (puntos_eval args = None \<and> step_grid_m args \<le> 0
            \<longrightarrow> algoritmo_genetico_mejorar_cobertura camaras args g = None)"
proof (intro conjI impI)
  assume "args_puntos_ciegos.tam_poblacion ac \<le> 0"
  with assms show "algoritmo_genetico_puntos_ciegos camaras ac g = Inr ([], g)"
    by (rule puntos_ciegos_sin_poblacion)
next
  assume h: "generaciones args \<le> 0
            \<and> (0 \<le> n_camaras_nuevas args \<or> puntos_semilla args = None)
            \<and> (puntos_eval args = None \<longrightarrow> 0 < step_grid_m args \<and> 0 \<le> grid_max_points args)"
  show "\<exists>r g'. algoritmo_genetico_mejorar_cobertura camaras args g = Some (Inr (r, g'))
                         \<and> camaras_nuevas r = [] \<and> fitness r = - 1"
    using assms h by (intro mejorar_cobertura_sin_generaciones) simp_all
next
  assume "puntos_eval args = None \<and> step_grid_m args \<le> 0"
  then show "algoritmo_genetico_mejorar_cobertura camaras args g = None"
    using assms by (intro mejorar_cobertura_no_termina) simp_all
qed

text \<open>A witness for C2: one camera, the defaults, and one invalid argument at a time.\<close>

theorem configuracion_sin_validar_testigo:
  "[(0, 0)] \<noteq> ([] :: punto list)
   \<and> args_puntos_ciegos.tam_poblacion
         (args_puntos_ciegos_defecto\<lparr>args_puntos_ciegos.tam_poblacion := - 3\<rparr>) \<le> 0
   \<and> algoritmo_genetico_puntos_ciegos [(0, 0)]
         (args_puntos_ciegos_defecto\<lparr>args_puntos_ciegos.tam_poblacion := - 3\<rparr>) cinta_cero
        = Inr ([], cinta_cero)
   \<and> generaciones (args_cobertura_defecto\<lparr>generaciones := - 1\<rparr>) \<le> 0
   \<and> resumen_cobertura
         (algoritmo_genetico_mejorar_cobertura [(0, 0)]
            (args_cobertura_defecto\<lparr>generaciones := - 1\<rparr>) cinta_cero)
        = Some (Inr (0, - 1))
   \<and> step_grid_m (args_cobertura_defecto\<lparr>step_grid_m := 0\<rparr>) \<le> 0
   \<and> algoritmo_genetico_mejorar_cobertura [(0, 0)]
         (args_cobertura_defecto\<lparr>step_grid_m := 0\<rparr>) cinta_cero = None"
proof -
  have ne: "[(0, 0)] \<noteq> ([] :: punto list)" by simp
  note t = configuracion_sin_validar[OF ne]
  have 1: "algoritmo_genetico_puntos_ciegos [(0, 0)]
         (args_puntos_ciegos_defecto\<lparr>args_puntos_ciegos.tam_poblacion := - 3\<rparr>) cinta_cero
        = Inr ([], cinta_cero)"
    using t[of "args_puntos_ciegos_defecto\<lparr>args_puntos_ciegos.tam_poblacion := - 3\<rparr>"
            cinta_cero args_cobertura_defecto]
    by simp
  have "\<exists>r g'. algoritmo_genetico_mejorar_cobertura [(0, 0)]
            (args_cobertura_defecto\<lparr>generaciones := - 1\<rparr>) cinta_cero = Some (Inr (r, g'))
          \<and> camaras_nuevas r = [] \<and> fitness r = - 1"
    using t[of args_puntos_ciegos_defecto cinta_cero
            "args_cobertura_defecto\<lparr>generaciones := - 1\<rparr>"]
    by (simp add: args_cobertura_defecto_def)
  then have 2: "resumen_cobertura
         (algoritmo_genetico_mejorar_cobertura [(0, 0)]
            (args_cobertura_defecto\<lparr>generaciones := - 1\<rparr>) cinta_cero)
        = Some (Inr (0, - 1))"
    by (auto simp: resumen_cobertura_def)
  have 3: "algoritmo_genetico_mejorar_cobertura [(0, 0)]
         (args_cobertura_defecto\<lparr>step_grid_m := 0\<rparr>) cinta_cero = None"
    using t[of args_puntos_ciegos_defecto cinta_cero
            "args_cobertura_defecto\<lparr>step_grid_m := 0\<rparr>"]
    by (simp add: args_cobertura_defecto_def)
  show ?thesis using 1 2 3 by simp
qed

end
